theory Spec2Isabelle
  imports Main "HOL-Library.Word"
begin

unbundle bit_operations_syntax

section \<open>Bytes and fixed-width integers\<close>

text \<open>
  The image builder of Pure64 (\<^verbatim>\<open>src/util/pure64.c\<close>) and its directory tree
  (\<^verbatim>\<open>src/lib/dir.c\<close>) work on bytes, on \<^verbatim>\<open>uint32_t\<close> and on \<^verbatim>\<open>uint64_t\<close>. They are
  words here, so that every \<open>+\<close>, \<open>-\<close> and \<open>*\<close> wraps as the C arithmetic does.

  \<^verbatim>\<open>fwrite(&x, 1, 8, file)\<close> writes the object representation of \<open>x\<close>: the host's byte
  order. The tool builds images for x86-64 on an x86-64 host, so the order is taken to be
  little-endian: the least significant byte first.
\<close>

type_synonym byte = "8 word"

definition le_bytes :: "nat \<Rightarrow> 'a::len word \<Rightarrow> byte list" where
  "le_bytes n w = map (\<lambda>i. ucast (drop_bit (8 * i) w)) [0..<n]"

definition le32 :: "32 word \<Rightarrow> byte list" where
  "le32 w = le_bytes 4 w"

definition le64 :: "64 word \<Rightarrow> byte list" where
  "le64 w = le_bytes 8 w"

definition of_le32 :: "byte list \<Rightarrow> 32 word" where
  "of_le32 bs = word_rcat (rev bs)"

definition of_le64 :: "byte list \<Rightarrow> 64 word" where
  "of_le64 bs = word_rcat (rev bs)"

section \<open>The CRC32 engine\<close>

text \<open>
  \<^verbatim>\<open>crc32\<close> of pure64.c. The inner loop runs eight times on the register, the outer loop
  once for each byte of the buffer.
\<close>

fun crc32_bits :: "nat \<Rightarrow> 32 word \<Rightarrow> 32 word" where
  "crc32_bits 0 crc = crc"
| "crc32_bits (Suc j) crc =
     (let mask = - (crc AND 1)
      in crc32_bits j (drop_bit 1 crc XOR (0xEDB88320 AND mask)))"

fun crc32_bytes :: "byte list \<Rightarrow> 32 word \<Rightarrow> 32 word" where
  "crc32_bytes [] crc = crc"
| "crc32_bytes (b # buf8) crc = crc32_bytes buf8 (crc32_bits 8 (crc XOR ucast b))"

definition crc32 :: "byte list \<Rightarrow> 32 word" where
  "crc32 buf = NOT (crc32_bytes buf 0xFFFFFFFF)"

text \<open>
  The reflected CRC-32 as the specification words it: the register starts at
  \<open>0xFFFFFFFF\<close>; each byte is XORed into it and followed by eight steps, each a shift to
  the right that XORs the polynomial \<open>0xEDB88320\<close> in when the bit shifted out was set;
  the result is the complement of the register.
\<close>

definition reflected_step :: "32 word \<Rightarrow> 32 word" where
  "reflected_step r = (if bit r 0 then drop_bit 1 r XOR 0xEDB88320 else drop_bit 1 r)"

definition reflected_crc32 :: "byte list \<Rightarrow> 32 word" where
  "reflected_crc32 buf =
     NOT (foldl (\<lambda>r b. (reflected_step ^^ 8) (r XOR ucast b)) 0xFFFFFFFF buf)"

section \<open>The host file\<close>

text \<open>
  A \<^verbatim>\<open>FILE *\<close> opened with \<^verbatim>\<open>"wb+"\<close> is its content and its position. The model is the
  file of a POSIX host on which no write fails for want of space: \<open>fwrite\<close> transfers all
  of its buffer, and a write beyond the end fills the gap with zero bytes. \<open>fread\<close>
  returns the bytes there are, fewer than asked for at the end of the file (the callers
  compare the count). \<open>fseek\<close> with \<^verbatim>\<open>SEEK_SET\<close> takes a \<^verbatim>\<open>long int\<close> and fails on a negative
  one.
\<close>

record FILE =
  content :: "byte list"
  pos :: nat

definition fopen_wb :: FILE where
  "fopen_wb = \<lparr>content = [], pos = 0\<rparr>"

definition fseek :: "FILE \<Rightarrow> int \<Rightarrow> FILE option" where
  "fseek file offset = (if offset < 0 then None else Some (file\<lparr>pos := nat offset\<rparr>))"

definition ftell :: "FILE \<Rightarrow> int" where
  "ftell file = int (pos file)"

definition fwrite :: "FILE \<Rightarrow> byte list \<Rightarrow> FILE" where
  "fwrite file buf =
     (if buf = [] then file
      else file\<lparr>content := take (pos file) (content file)
                    @ replicate (pos file - length (content file)) 0
                    @ buf
                    @ drop (pos file + length buf) (content file),
                pos := pos file + length buf\<rparr>)"

definition fputc :: "byte \<Rightarrow> FILE \<Rightarrow> FILE" where
  "fputc c file = fwrite file [c]"

definition fread :: "FILE \<Rightarrow> nat \<Rightarrow> byte list \<times> FILE" where
  "fread file n =
     (let buf = take n (drop (pos file) (content file))
      in (buf, file\<lparr>pos := pos file + length buf\<rparr>))"

fun zero_file_data :: "FILE \<Rightarrow> nat \<Rightarrow> FILE" where
  "zero_file_data file 0 = file"
| "zero_file_data file (Suc n) = zero_file_data (fputc 0 file) n"

text \<open>
  Two views of a content, for the proofs: the \<open>n\<close> bytes at offset \<open>q\<close>, and the content
  after a buffer has been written at the position \<open>p\<close>.
\<close>

definition region :: "byte list \<Rightarrow> nat \<Rightarrow> nat \<Rightarrow> byte list" where
  "region c q n = take n (drop q c)"

definition pwrite :: "byte list \<Rightarrow> nat \<Rightarrow> byte list \<Rightarrow> byte list" where
  "pwrite c p buf = take p c @ replicate (p - length c) 0 @ buf @ drop (p + length buf) c"

text \<open>The functions of pure64.c that return \<^verbatim>\<open>EXIT_FAILURE\<close> return \<open>Inl EXIT_FAILURE\<close>.\<close>

datatype exit_code = EXIT_FAILURE

section \<open>GPT headers and their checksums\<close>

definition GPT_PARTITION_HEADER_SIZE :: nat where
  "GPT_PARTITION_HEADER_SIZE = 128"

definition GPT_PARTITION_HEADER_COUNT :: nat where
  "GPT_PARTITION_HEADER_COUNT = 128"

definition GPT_HEADER_SIZE :: nat where
  "GPT_HEADER_SIZE = 92"

record gpt_header =
  current_lba :: "64 word"
  backup_lba :: "64 word"
  first_usable_lba :: "64 word"
  last_usable_lba :: "64 word"
  disk_uuid :: "byte list"
  partition_headers_lba :: "64 word"
  partition_header_count :: "32 word"

text \<open>
  \<^verbatim>\<open>export_gpt_header\<close> makes one \<open>fwrite\<close> for each field, then 105 of four zero bytes,
  and adds up what they wrote. The disk UUID is an array of 16 bytes in C; a header whose
  \<open>disk_uuid\<close> is shorter makes the count fall short of 512.
\<close>

definition gpt_header_fields :: "gpt_header \<Rightarrow> byte list list" where
  "gpt_header_fields header =
     [ [0x45, 0x46, 0x49, 0x20, 0x50, 0x41, 0x52, 0x54],
       [0x00, 0x00, 0x01, 0x00],
       [0x5c, 0x00, 0x00, 0x00],
       [0x00, 0x00, 0x00, 0x00],
       [0x00, 0x00, 0x00, 0x00],
       le64 (current_lba header),
       le64 (backup_lba header),
       le64 (first_usable_lba header),
       le64 (last_usable_lba header),
       take 16 (disk_uuid header),
       le64 (partition_headers_lba header),
       le32 (partition_header_count header),
       [0x80, 0x00, 0x00, 0x00],
       [0x00, 0x00, 0x00, 0x00] ]
     @ replicate ((512 - 92) div 4) [0x00, 0x00, 0x00, 0x00]"

definition export_gpt_header :: "FILE \<Rightarrow> gpt_header \<Rightarrow> exit_code + FILE" where
  "export_gpt_header file header =
     (let file' = foldl fwrite file (gpt_header_fields header);
          write_count = sum_list (map length (gpt_header_fields header))
      in if write_count \<noteq> 512 then Inl EXIT_FAILURE else Inr file')"

definition calculate_header_checksum :: "FILE \<Rightarrow> int \<Rightarrow> exit_code + FILE" where
  "calculate_header_checksum file header_location =
     (case fseek file header_location of
        None \<Rightarrow> Inl EXIT_FAILURE
      | Some file1 \<Rightarrow>
          (case fread file1 GPT_HEADER_SIZE of
             (buf, file2) \<Rightarrow>
               if length buf \<noteq> GPT_HEADER_SIZE then Inl EXIT_FAILURE
               else
                 (let checksum = crc32 buf
                  in case fseek file2 (header_location + 16) of
                       None \<Rightarrow> Inl EXIT_FAILURE
                     | Some file3 \<Rightarrow> Inr (fwrite file3 (le32 checksum)))))"

text \<open>
  Where the backup partition-entry array starts, as \<^verbatim>\<open>calculate_partition_headers_checksum\<close>
  and \<^verbatim>\<open>pure64_init\<close> both compute it: in \<^verbatim>\<open>uint64_t\<close>, then passed to \<open>fseek\<close> as a
  \<^verbatim>\<open>long int\<close>.
\<close>

definition backup_array_location :: "64 word \<Rightarrow> 64 word" where
  "backup_array_location lba =
     lba * 512 - of_nat (GPT_PARTITION_HEADER_COUNT * GPT_PARTITION_HEADER_SIZE)"

definition calculate_partition_headers_checksum :: "FILE \<Rightarrow> exit_code + FILE" where
  "calculate_partition_headers_checksum file =
     (case fseek file 1024 of
        None \<Rightarrow> Inl EXIT_FAILURE
      | Some file1 \<Rightarrow>
     let buf_size = GPT_PARTITION_HEADER_SIZE * GPT_PARTITION_HEADER_COUNT
     in case fread file1 buf_size of (buf, file2) \<Rightarrow>
     if length buf \<noteq> buf_size then Inl EXIT_FAILURE
     else
     let checksum = crc32 buf
     in case fseek file2 (512 + 88) of
        None \<Rightarrow> Inl EXIT_FAILURE
      | Some file3 \<Rightarrow>
     let file4 = fwrite file3 (le32 checksum)
     in case fseek file4 (512 + 32) of
        None \<Rightarrow> Inl EXIT_FAILURE
      | Some file5 \<Rightarrow>
     case fread file5 8 of (lba_buf, file6) \<Rightarrow>
     if length lba_buf \<noteq> 8 then Inl EXIT_FAILURE
     else
     let lba = of_le64 lba_buf
     in case fseek file6 (sint (backup_array_location lba)) of
        None \<Rightarrow> Inl EXIT_FAILURE
      | Some file7 \<Rightarrow>
     case fread file7 buf_size of (buf', file8) \<Rightarrow>
     if length buf' \<noteq> buf_size then Inl EXIT_FAILURE
     else
     let checksum' = crc32 buf'
     in case fseek file8 (sint (lba * 512 + 88)) of
        None \<Rightarrow> Inl EXIT_FAILURE
      | Some file9 \<Rightarrow> Inr (fwrite file9 (le32 checksum')))"

definition calculate_checksums :: "FILE \<Rightarrow> exit_code + FILE" where
  "calculate_checksums file =
     (case calculate_partition_headers_checksum file of
        Inl err \<Rightarrow> Inl err
      | Inr file1 \<Rightarrow>
     case calculate_header_checksum file1 512 of
        Inl err \<Rightarrow> Inl err
      | Inr file2 \<Rightarrow>
     case fseek file2 (512 + 32) of
        None \<Rightarrow> Inl EXIT_FAILURE
      | Some file3 \<Rightarrow>
     case fread file3 8 of (lba_buf, file4) \<Rightarrow>
     if length lba_buf \<noteq> 8 then Inl EXIT_FAILURE
     else calculate_header_checksum file4 (sint (of_le64 lba_buf * 512)))"

section \<open>Creating an empty GPT disk\<close>

text \<open>
  \<^verbatim>\<open>pure64_init\<close> first reads its options. \<^verbatim>\<open>sscanf\<close> is the C library's: only the count it
  returns is used, and a count of zero means that nothing was stored in \<^verbatim>\<open>disk_size\<close>.
  The loop does not step over the value of \<^verbatim>\<open>--disk-size\<close>, so the value is the next
  option it looks at. \<^verbatim>\<open>argv[argc]\<close> is the null pointer.
\<close>

fun init_options ::
  "(string \<Rightarrow> int) \<Rightarrow> string list \<Rightarrow> string option \<Rightarrow> 64 word
     \<Rightarrow> exit_code + (string option \<times> 64 word)" where
  "init_options sscanf_llu [] disk_uuid_str disk_size = Inr (disk_uuid_str, disk_size)"
| "init_options sscanf_llu (arg # rest) disk_uuid_str disk_size =
     (if arg = ''--disk-uuid'' then
        (case rest of
           [] \<Rightarrow> Inr (None, disk_size)
         | v # rest' \<Rightarrow> init_options sscanf_llu rest' (Some v) disk_size)
      else if arg = ''--disk-size'' then
        (case rest of
           [] \<Rightarrow> Inl EXIT_FAILURE
         | v # _ \<Rightarrow>
             if sscanf_llu v \<noteq> 0 then Inl EXIT_FAILURE
             else init_options sscanf_llu rest disk_uuid_str disk_size)
      else Inl EXIT_FAILURE)"

definition PURE64_DEFAULT_DISK_UUID :: string where
  "PURE64_DEFAULT_DISK_UUID = ''74a7c14a-711d-4293-a731-569ca656799e''"

definition minimum_size :: "64 word" where
  "minimum_size =
     of_nat GPT_HEADER_SIZE
     + of_nat (GPT_PARTITION_HEADER_COUNT * GPT_PARTITION_HEADER_SIZE)
     + of_nat (GPT_PARTITION_HEADER_COUNT * 512)
     + of_nat (GPT_PARTITION_HEADER_COUNT * GPT_PARTITION_HEADER_SIZE)
     + of_nat GPT_HEADER_SIZE"

definition disk_size_ok :: "64 word \<Rightarrow> bool" where
  "disk_size_ok disk_size = (\<not> disk_size < minimum_size)"

definition pad_disk_size :: "64 word \<Rightarrow> 64 word" where
  "pad_disk_size disk_size =
     (if disk_size mod 512 \<noteq> 0 then disk_size + (512 - disk_size mod 512) else disk_size)"

definition primary_gpt_header :: "byte list \<Rightarrow> 64 word \<Rightarrow> gpt_header" where
  "primary_gpt_header uuid disk_size =
     \<lparr>current_lba = 1,
      backup_lba = (disk_size - 512) div 512,
      first_usable_lba =
        ((1 + 1) * 512 + of_nat (GPT_PARTITION_HEADER_COUNT * GPT_PARTITION_HEADER_SIZE))
          div 512,
      last_usable_lba =
        ((disk_size - 512) div 512 * 512
           - of_nat (GPT_PARTITION_HEADER_COUNT * GPT_PARTITION_HEADER_SIZE) - 512) div 512,
      disk_uuid = uuid,
      partition_headers_lba = 2,
      partition_header_count = of_nat GPT_PARTITION_HEADER_COUNT\<rparr>"

definition backup_gpt_header :: "gpt_header \<Rightarrow> gpt_header" where
  "backup_gpt_header header =
     header\<lparr>partition_headers_lba :=
              (backup_lba header * 512
                 - of_nat (GPT_PARTITION_HEADER_COUNT * GPT_PARTITION_HEADER_SIZE) - 512)
                div 512,
            current_lba := backup_lba header,
            backup_lba := 1\<rparr>"

text \<open>
  The body of \<^verbatim>\<open>pure64_init\<close> from the size check to the second \<^verbatim>\<open>export_gpt_header\<close>:
  what is on the disk when the checksum pass starts. \<open>uuid\<close> is what
  \<^verbatim>\<open>pure64_uuid_parse\<close> made of the UUID string, \<open>None\<close> when it refused it; \<open>mbr_data\<close> is
  the boot sector that the build embeds.
\<close>

definition init_write_gpt ::
  "byte list \<Rightarrow> byte list option \<Rightarrow> 64 word \<Rightarrow> exit_code + FILE" where
  "init_write_gpt mbr_data uuid disk_size0 =
     (if \<not> disk_size_ok disk_size0 then Inl EXIT_FAILURE
      else
      let disk_size = pad_disk_size disk_size0
      in case uuid of
        None \<Rightarrow> Inl EXIT_FAILURE
      | Some uuid_bytes \<Rightarrow>
      let file = fwrite fopen_wb mbr_data
      in if length mbr_data \<noteq> 512 then Inl EXIT_FAILURE
      else
      let header = primary_gpt_header uuid_bytes disk_size
      in case export_gpt_header file header of
        Inl err \<Rightarrow> Inl EXIT_FAILURE
      | Inr file1 \<Rightarrow>
      let file2 =
        zero_file_data file1 (GPT_PARTITION_HEADER_SIZE * GPT_PARTITION_HEADER_COUNT)
      in case fseek file2 (sint (backup_array_location (backup_lba header))) of
        None \<Rightarrow> Inl EXIT_FAILURE
      | Some file3 \<Rightarrow>
      let file4 =
        zero_file_data file3 (GPT_PARTITION_HEADER_SIZE * GPT_PARTITION_HEADER_COUNT)
      in case fseek file4 (sint (backup_lba header * 512)) of
        None \<Rightarrow> Inl EXIT_FAILURE
      | Some file5 \<Rightarrow>
      case export_gpt_header file5 (backup_gpt_header header) of
        Inl err \<Rightarrow> Inl EXIT_FAILURE
      | Inr file6 \<Rightarrow> Inr file6)"

definition init_gpt_disk ::
  "byte list \<Rightarrow> byte list option \<Rightarrow> 64 word \<Rightarrow> exit_code + FILE" where
  "init_gpt_disk mbr_data uuid disk_size =
     (case init_write_gpt mbr_data uuid disk_size of
        Inl err \<Rightarrow> Inl err
      | Inr file \<Rightarrow> calculate_checksums file)"

definition pure64_init ::
  "(string \<Rightarrow> int) \<Rightarrow> (string \<Rightarrow> byte list option) \<Rightarrow> byte list \<Rightarrow> string list
     \<Rightarrow> exit_code + FILE" where
  "pure64_init sscanf_llu pure64_uuid_parse mbr_data argv =
     (case init_options sscanf_llu argv None (1 * 1024 * 1024) of
        Inl err \<Rightarrow> Inl err
      | Inr (disk_uuid_str, disk_size) \<Rightarrow>
          init_gpt_disk mbr_data
            (pure64_uuid_parse
               (case disk_uuid_str of None \<Rightarrow> PURE64_DEFAULT_DISK_UUID | Some s \<Rightarrow> s))
            disk_size)"

text \<open>
  What a reader of the disk checks: the 92 bytes of the header at \<open>location\<close>, and the
  checksum stored at their offset 16 against the CRC32 of the 92 bytes with that field
  taken as zero.
\<close>

definition header_bytes :: "FILE \<Rightarrow> nat \<Rightarrow> byte list" where
  "header_bytes file location = take GPT_HEADER_SIZE (drop location (content file))"

definition stored_header_checksum :: "FILE \<Rightarrow> nat \<Rightarrow> 32 word" where
  "stored_header_checksum file location = of_le32 (take 4 (drop 16 (header_bytes file location)))"

definition stored_array_checksum :: "FILE \<Rightarrow> nat \<Rightarrow> 32 word" where
  "stored_array_checksum file location = of_le32 (take 4 (drop 88 (header_bytes file location)))"

definition stored_array_lba :: "FILE \<Rightarrow> nat \<Rightarrow> 64 word" where
  "stored_array_lba file location = of_le64 (take 8 (drop 72 (header_bytes file location)))"

definition partition_array :: "FILE \<Rightarrow> nat \<Rightarrow> byte list" where
  "partition_array file location =
     take (GPT_PARTITION_HEADER_SIZE * GPT_PARTITION_HEADER_COUNT) (drop location (content file))"

definition header_validates :: "FILE \<Rightarrow> nat \<Rightarrow> bool" where
  "header_validates file location =
     (length (header_bytes file location) = GPT_HEADER_SIZE
      \<and> crc32 (take 16 (header_bytes file location) @ [0, 0, 0, 0]
                @ drop 20 (header_bytes file location))
          = stored_header_checksum file location)"

text \<open>
  For the proofs: the sector that \<^verbatim>\<open>export_gpt_header\<close> writes, a run of zero bytes, and
  the backup LBA that \<^verbatim>\<open>pure64_init\<close> computes from the padded disk size.
\<close>

definition gpt_sector :: "gpt_header \<Rightarrow> byte list" where
  "gpt_sector header = concat (gpt_header_fields header)"

definition gap :: "nat \<Rightarrow> byte list" where
  "gap n = replicate n 0"

definition init_backup_lba :: "64 word \<Rightarrow> 64 word" where
  "init_backup_lba disk_size = (pad_disk_size disk_size - 512) div 512"

section \<open>Assembling the image\<close>

text \<open>
  \<^verbatim>\<open>ramfs_export\<close>. The sizes \<^verbatim>\<open>pure64_data_size\<close> and \<^verbatim>\<open>stage_three_data_size\<close> come from
  headers that the build generates; they are the \<^verbatim>\<open>unsigned long int\<close> of the x86-64
  host, 64 bits wide.
\<close>

definition stage_too_big :: "64 word \<Rightarrow> bool" where
  "stage_too_big data_size = ((data_size + 511) div 512 > 0x7f)"

definition layout_offsets :: "64 word \<Rightarrow> 64 word \<Rightarrow> 64 word \<times> 64 word \<times> 64 word" where
  "layout_offsets pure64_data_size stage_three_data_size =
     (let st2_offset = 0x2000;
          st3_offset = 0x2000 + pure64_data_size;
          fs_offset = st3_offset + stage_three_data_size
      in (((st2_offset + 511) div 512) * 512,
          ((st3_offset + 511) div 512) * 512,
          ((fs_offset + 511) div 512) * 512))"

definition PURE64_MINIMUM_DISK_SIZE :: int where
  "PURE64_MINIMUM_DISK_SIZE = 1 * 1024 * 1024"

text \<open>
  The part of \<^verbatim>\<open>ramfs_export\<close> up to the export of the file system.
  \<^verbatim>\<open>pure64_fs_export\<close> is in fs.c, which is not among the sources: it stands here as
  \<open>fs_image\<close>, the bytes that it writes from the position it is called at.
\<close>

definition ramfs_write ::
  "byte list \<Rightarrow> byte list \<Rightarrow> byte list \<Rightarrow> byte list \<Rightarrow> exit_code + FILE" where
  "ramfs_write mbr_data pure64_data stage_three_data fs_image =
     (let pure64_data_size = of_nat (length pure64_data);
          stage_three_data_size = of_nat (length stage_three_data)
      in if stage_too_big pure64_data_size then Inl EXIT_FAILURE
      else if stage_too_big stage_three_data_size then Inl EXIT_FAILURE
      else
      let file = fwrite fopen_wb mbr_data
      in case layout_offsets pure64_data_size stage_three_data_size of
        (st2_offset, st3_offset, fs_offset) \<Rightarrow>
      case fseek file (sint st2_offset) of
        None \<Rightarrow> Inl EXIT_FAILURE
      | Some file1 \<Rightarrow>
      let file2 = fwrite file1 pure64_data
      in case fseek file2 (sint st3_offset) of
        None \<Rightarrow> Inl EXIT_FAILURE
      | Some file3 \<Rightarrow>
      let file4 = fwrite file3 stage_three_data
      in case fseek file4 (sint fs_offset) of
        None \<Rightarrow> Inl EXIT_FAILURE
      | Some file5 \<Rightarrow> Inr (fwrite file5 fs_image))"

text \<open>The padding. Neither \<open>fseek\<close> nor \<open>fputc\<close> is checked there.\<close>

definition seek_unchecked :: "FILE \<Rightarrow> int \<Rightarrow> FILE" where
  "seek_unchecked file offset = (case fseek file offset of None \<Rightarrow> file | Some file' \<Rightarrow> file')"

definition pad_image :: "FILE \<Rightarrow> FILE" where
  "pad_image file =
     (let p = ftell file
      in if p < PURE64_MINIMUM_DISK_SIZE then
           fputc 0x00 (seek_unchecked file (PURE64_MINIMUM_DISK_SIZE - 1))
         else if p mod 512 \<noteq> 0 then
           fputc 0x00 (seek_unchecked file ((p + (512 - (p mod 512))) - 1))
         else file)"

text \<open>Rounding up to a multiple of 512, on natural numbers.\<close>

definition round512 :: "nat \<Rightarrow> nat" where
  "round512 n = (n + 511) div 512 * 512"

text \<open>
  Modelled from the spec: \<^verbatim>\<open>pure64_mbr_read\<close> and \<^verbatim>\<open>pure64_mbr_write\<close> are in mbr.c, which
  is not among the sources. The specification has the sector that was written first read
  back, its two boot descriptors (first sector and sector count of each stage) patched,
  and the sector written again in place. Where the descriptors lie in the sector is not
  given: \<open>mbr_patch\<close> stands for the patching.
\<close>

definition update_mbr ::
  "(byte list \<Rightarrow> 64 word \<times> 64 word \<Rightarrow> 64 word \<times> 64 word \<Rightarrow> byte list)
     \<Rightarrow> FILE \<Rightarrow> 64 word \<Rightarrow> 64 word \<Rightarrow> exit_code + FILE" where
  "update_mbr mbr_patch file pure64_data_size stage_three_data_size =
     (case layout_offsets pure64_data_size stage_three_data_size of
        (st2_offset, st3_offset, fs_offset) \<Rightarrow>
      case fseek file 0 of
        None \<Rightarrow> Inl EXIT_FAILURE
      | Some file1 \<Rightarrow>
      case fread file1 512 of (mbr, file2) \<Rightarrow>
      if length mbr \<noteq> 512 then Inl EXIT_FAILURE
      else
      let mbr' = mbr_patch mbr
                   (st2_offset div 512, (pure64_data_size + 511) div 512)
                   (st3_offset div 512, (stage_three_data_size + 511) div 512)
      in case fseek file2 0 of
        None \<Rightarrow> Inl EXIT_FAILURE
      | Some file3 \<Rightarrow> Inr (fwrite file3 mbr'))"

definition ramfs_export ::
  "(byte list \<Rightarrow> 64 word \<times> 64 word \<Rightarrow> 64 word \<times> 64 word \<Rightarrow> byte list)
     \<Rightarrow> byte list \<Rightarrow> byte list \<Rightarrow> byte list \<Rightarrow> byte list \<Rightarrow> exit_code + FILE" where
  "ramfs_export mbr_patch mbr_data pure64_data stage_three_data fs_image =
     (case ramfs_write mbr_data pure64_data stage_three_data fs_image of
        Inl err \<Rightarrow> Inl err
      | Inr file \<Rightarrow>
          update_mbr mbr_patch (pad_image file)
            (of_nat (length pure64_data)) (of_nat (length stage_three_data)))"

section \<open>The directory tree\<close>

text \<open>
  \<^verbatim>\<open>struct pure64_dir\<close> holds a name with its size and two arrays with their counts;
  \<^verbatim>\<open>struct pure64_file\<close> a name and the data, each with its size. Here an array is a
  list, and a size or a count is the length of its list as a \<^verbatim>\<open>uint64_t\<close>
  (\<open>dir_name_size\<close>, \<open>dir_subdir_count\<close> and \<open>dir_file_count\<close> for the fields
  \<^verbatim>\<open>name_size\<close>, \<^verbatim>\<open>subdir_count\<close> and \<^verbatim>\<open>file_count\<close>). A name is
  the \<open>name_size\<close> bytes before the terminator that the C code keeps after them; the null
  name of a directory that \<^verbatim>\<open>pure64_dir_init\<close> has just set up has no bytes.
\<close>

datatype pure64_error = PURE64_ENOMEM | PURE64_EEXIST | PURE64_EIO | PURE64_EINVAL

datatype pure64_file = File (file_name: "byte list") (file_data: "byte list")

datatype pure64_dir =
  Dir (dir_name: "byte list") (subdirs: "pure64_dir list") (files: "pure64_file list")

definition dir_name_size :: "pure64_dir \<Rightarrow> 64 word" where
  "dir_name_size dir = of_nat (length (dir_name dir))"

definition dir_subdir_count :: "pure64_dir \<Rightarrow> 64 word" where
  "dir_subdir_count dir = of_nat (length (subdirs dir))"

definition dir_file_count :: "pure64_dir \<Rightarrow> 64 word" where
  "dir_file_count dir = of_nat (length (files dir))"

definition pure64_dir_init :: pure64_dir where
  "pure64_dir_init = Dir [] [] []"

text \<open>
  The sizes of the two structures, for the requests that the allocator sees: three
  64-bit counts and three pointers in a directory, two sizes and two pointers in a file,
  on the x86-64 host.
\<close>

definition sizeof_dir :: "64 word" where
  "sizeof_dir = 48"

definition sizeof_file :: "64 word" where
  "sizeof_file = 32"

subsection \<open>Names\<close>

text \<open>
  A \<^verbatim>\<open>const char *\<close> is the list of the bytes it points to; the string ends at the first
  zero byte, or at the end of the list, where the terminator is. \<^verbatim>\<open>pure64_strcmp\<close> and
  \<^verbatim>\<open>pure64_strlen\<close> follow their descriptions in \<^verbatim>\<open>include/pure64/string.h\<close>.
\<close>

fun pure64_strcmp :: "byte list \<Rightarrow> byte list \<Rightarrow> int" where
  "pure64_strcmp [] [] = 0"
| "pure64_strcmp [] (y # b) = (if y = 0 then 0 else - 1)"
| "pure64_strcmp (x # a) [] = (if x = 0 then 0 else 1)"
| "pure64_strcmp (x # a) (y # b) =
     (if y < x then 1 else if x < y then - 1 else if x = 0 then 0 else pure64_strcmp a b)"

definition pure64_strlen :: "byte list \<Rightarrow> 64 word" where
  "pure64_strlen str = of_nat (length (takeWhile (\<lambda>c. c \<noteq> 0) str))"

fun file_name_exists :: "pure64_file list \<Rightarrow> byte list \<Rightarrow> bool" where
  "file_name_exists [] name = False"
| "file_name_exists (f # fs) name =
     (if pure64_strcmp (file_name f) name = 0 then True else file_name_exists fs name)"

fun subdir_name_exists :: "pure64_dir list \<Rightarrow> byte list \<Rightarrow> bool" where
  "subdir_name_exists [] name = False"
| "subdir_name_exists (d # ds) name =
     (if pure64_strcmp (dir_name d) name = 0 then True else subdir_name_exists ds name)"

definition pure64_dir_name_exists :: "pure64_dir \<Rightarrow> byte list \<Rightarrow> bool" where
  "pure64_dir_name_exists dir name =
     (if file_name_exists (files dir) name then True
      else if subdir_name_exists (subdirs dir) name then True
      else False)"

subsection \<open>Inserting a child\<close>

text \<open>
  The functions return the error code and the directory as they leave it; \<open>None\<close> is the
  code 0. \<^verbatim>\<open>pure64_malloc\<close> and \<^verbatim>\<open>pure64_realloc\<close> of pure64.c hand their request to the
  allocator of the host: \<open>allocator n\<close> tells whether it grants a request of \<open>n\<close> bytes.
  The model keeps the content of an array and not its address, so the array that
  \<^verbatim>\<open>pure64_realloc\<close> may have moved when the name of the new child then fails to be set
  is the same list.
\<close>

definition pure64_dir_set_name ::
  "(64 word \<Rightarrow> bool) \<Rightarrow> pure64_dir \<Rightarrow> byte list \<Rightarrow> pure64_error option \<times> pure64_dir" where
  "pure64_dir_set_name allocator dir name =
     (let name_size = pure64_strlen name
      in if \<not> allocator (name_size + 1) then (Some PURE64_ENOMEM, dir)
         else (None, Dir (take (unat name_size) name) (subdirs dir) (files dir)))"

text \<open>
  \<^verbatim>\<open>pure64_file_init\<close> and \<^verbatim>\<open>pure64_file_set_name\<close> are in file.c, which is not among the
  sources. The first is taken to leave an empty file, as \<^verbatim>\<open>pure64_dir_init\<close> leaves an
  empty directory; the second is a parameter of \<open>pure64_dir_add_file\<close>.
\<close>

definition pure64_file_init :: pure64_file where
  "pure64_file_init = File [] []"

definition pure64_dir_add_file ::
  "(64 word \<Rightarrow> bool)
     \<Rightarrow> (pure64_file \<Rightarrow> byte list \<Rightarrow> pure64_error option \<times> pure64_file)
     \<Rightarrow> pure64_dir \<Rightarrow> byte list \<Rightarrow> pure64_error option \<times> pure64_dir" where
  "pure64_dir_add_file allocator pure64_file_set_name dir name =
     (if pure64_dir_name_exists dir name then (Some PURE64_EEXIST, dir)
      else
      let files_size = (dir_file_count dir + 1) * sizeof_file
      in if \<not> allocator files_size then (Some PURE64_ENOMEM, dir)
      else
      case pure64_file_set_name pure64_file_init name of
        (Some err, f) \<Rightarrow> (Some err, dir)
      | (None, f) \<Rightarrow> (None, Dir (dir_name dir) (subdirs dir) (files dir @ [f])))"

definition pure64_dir_add_subdir ::
  "(64 word \<Rightarrow> bool) \<Rightarrow> pure64_dir \<Rightarrow> byte list \<Rightarrow> pure64_error option \<times> pure64_dir" where
  "pure64_dir_add_subdir allocator dir name =
     (if pure64_dir_name_exists dir name then (Some PURE64_EEXIST, dir)
      else
      let subdirs_size = (dir_subdir_count dir + 1) * sizeof_dir
      in if \<not> allocator subdirs_size then (Some PURE64_ENOMEM, dir)
      else
      case pure64_dir_set_name allocator pure64_dir_init name of
        (Some err, d) \<Rightarrow> (Some err, dir)
      | (None, d) \<Rightarrow> (None, Dir (dir_name dir) (subdirs dir @ [d]) (files dir)))"

subsection \<open>The codec\<close>

text \<open>
  The stream of \<^verbatim>\<open>ramfs_export\<close> and \<^verbatim>\<open>ramfs_import\<close> is the host file:
  \<^verbatim>\<open>pure64_stream_write\<close> and \<^verbatim>\<open>pure64_stream_read\<close> call \<^verbatim>\<open>fstream_write\<close> and
  \<^verbatim>\<open>fstream_read\<close> of pure64.c.

  Modelled from the spec: \<^verbatim>\<open>encode_uint64\<close> and \<^verbatim>\<open>decode_uint64\<close> (misc.c) and
  \<^verbatim>\<open>pure64_file_export\<close> and \<^verbatim>\<open>pure64_file_import\<close> (file.c) are not among the sources.
  The specification has a count written as a 64-bit unsigned integer of fixed width, and
  a file written as a directory is: its sizes, then the bytes of its name, then the bytes
  of its data. The file has two sizes, of its name and of its data.
\<close>

definition fstream_write :: "FILE \<Rightarrow> byte list \<Rightarrow> pure64_error + FILE" where
  "fstream_write file buf = Inr (fwrite file buf)"

definition fstream_read :: "FILE \<Rightarrow> nat \<Rightarrow> pure64_error + (byte list \<times> FILE)" where
  "fstream_read file buf_size =
     (case fread file buf_size of
        (buf, file') \<Rightarrow> if length buf \<noteq> buf_size then Inl PURE64_EIO else Inr (buf, file'))"

definition encode_uint64 :: "64 word \<Rightarrow> FILE \<Rightarrow> pure64_error + FILE" where
  "encode_uint64 n out = fstream_write out (le64 n)"

definition decode_uint64 :: "FILE \<Rightarrow> pure64_error + (64 word \<times> FILE)" where
  "decode_uint64 inp =
     (case fstream_read inp 8 of
        Inl err \<Rightarrow> Inl err
      | Inr (buf, inp') \<Rightarrow> Inr (of_le64 buf, inp'))"

definition pure64_file_import ::
  "(64 word \<Rightarrow> bool) \<Rightarrow> FILE \<Rightarrow> pure64_error + (pure64_file \<times> FILE)" where
  "pure64_file_import allocator inp =
     (case decode_uint64 inp of
        Inl err \<Rightarrow> Inl err
      | Inr (name_size, in1) \<Rightarrow>
     case decode_uint64 in1 of
        Inl err \<Rightarrow> Inl err
      | Inr (data_size, in2) \<Rightarrow>
     if \<not> allocator (name_size + 1) \<or> \<not> allocator data_size then Inl PURE64_ENOMEM
     else
     case fstream_read in2 (unat name_size) of
        Inl err \<Rightarrow> Inl err
      | Inr (name, in3) \<Rightarrow>
     case fstream_read in3 (unat data_size) of
        Inl err \<Rightarrow> Inl err
      | Inr (data, in4) \<Rightarrow> Inr (File name data, in4))"

fun files_import ::
  "(64 word \<Rightarrow> bool) \<Rightarrow> nat \<Rightarrow> FILE \<Rightarrow> pure64_error + (pure64_file list \<times> FILE)" where
  "files_import allocator 0 inp = Inr ([], inp)"
| "files_import allocator (Suc n) inp =
     (case pure64_file_import allocator inp of
        Inl err \<Rightarrow> Inl err
      | Inr (f, in1) \<Rightarrow>
     case files_import allocator n in1 of
        Inl err \<Rightarrow> Inl err
      | Inr (fs, in2) \<Rightarrow> Inr (f # fs, in2))"

definition pure64_file_export :: "pure64_file \<Rightarrow> FILE \<Rightarrow> pure64_error + FILE" where
  "pure64_file_export f out =
     (case encode_uint64 (of_nat (length (file_name f))) out of
        Inl err \<Rightarrow> Inl err
      | Inr out1 \<Rightarrow>
     case encode_uint64 (of_nat (length (file_data f))) out1 of
        Inl err \<Rightarrow> Inl err
      | Inr out2 \<Rightarrow>
     case fstream_write out2 (file_name f) of
        Inl err \<Rightarrow> Inl err
      | Inr out3 \<Rightarrow> fstream_write out3 (file_data f))"

fun files_export :: "pure64_file list \<Rightarrow> FILE \<Rightarrow> pure64_error + FILE" where
  "files_export [] out = Inr out"
| "files_export (f # fs) out =
     (case pure64_file_export f out of
        Inl err \<Rightarrow> Inl err
      | Inr out1 \<Rightarrow> files_export fs out1)"

fun pure64_dir_export :: "pure64_dir \<Rightarrow> FILE \<Rightarrow> pure64_error + FILE"
and subdirs_export :: "pure64_dir list \<Rightarrow> FILE \<Rightarrow> pure64_error + FILE" where
  "pure64_dir_export (Dir name ds fs) out =
     (case encode_uint64 (of_nat (length name)) out of
        Inl err \<Rightarrow> Inl err
      | Inr out1 \<Rightarrow>
     case encode_uint64 (of_nat (length ds)) out1 of
        Inl err \<Rightarrow> Inl err
      | Inr out2 \<Rightarrow>
     case encode_uint64 (of_nat (length fs)) out2 of
        Inl err \<Rightarrow> Inl err
      | Inr out3 \<Rightarrow>
     case fstream_write out3 name of
        Inl err \<Rightarrow> Inl err
      | Inr out4 \<Rightarrow>
     case subdirs_export ds out4 of
        Inl err \<Rightarrow> Inl err
      | Inr out5 \<Rightarrow> files_export fs out5)"
| "subdirs_export [] out = Inr out"
| "subdirs_export (d # ds) out =
     (case pure64_dir_export d out of
        Inl err \<Rightarrow> Inl err
      | Inr out1 \<Rightarrow> subdirs_export ds out1)"

text \<open>
  \<^verbatim>\<open>pure64_dir_import\<close> reads the three counts, asks for the name and the two arrays,
  reads the name, then imports \<open>subdir_count\<close> directories and \<open>file_count\<close> files. It
  returns: every directory it reads takes 24 bytes of what is left of the stream,
  \<open>unread\<close>, the measure of the recursion.
\<close>

definition unread :: "FILE \<Rightarrow> nat" where
  "unread file = length (content file) - pos file"

function pure64_dir_import ::
  "(64 word \<Rightarrow> bool) \<Rightarrow> FILE \<Rightarrow> pure64_error + (pure64_dir \<times> FILE)"
and subdirs_import ::
  "(64 word \<Rightarrow> bool) \<Rightarrow> nat \<Rightarrow> FILE \<Rightarrow> pure64_error + (pure64_dir list \<times> FILE)" where
  "pure64_dir_import allocator inp =
     (case decode_uint64 inp of
        Inl err \<Rightarrow> Inl err
      | Inr (name_size, in1) \<Rightarrow>
     case decode_uint64 in1 of
        Inl err \<Rightarrow> Inl err
      | Inr (subdir_count, in2) \<Rightarrow>
     case decode_uint64 in2 of
        Inl err \<Rightarrow> Inl err
      | Inr (file_count, in3) \<Rightarrow>
     if \<not> allocator (name_size + 1)
        \<or> \<not> allocator (subdir_count * sizeof_dir)
        \<or> \<not> allocator (file_count * sizeof_file) then Inl PURE64_ENOMEM
     else
     case fstream_read in3 (unat name_size) of
        Inl err \<Rightarrow> Inl err
      | Inr (name, in4) \<Rightarrow>
     case subdirs_import allocator (unat subdir_count) in4 of
        Inl err \<Rightarrow> Inl err
      | Inr (ds, in5) \<Rightarrow>
     case files_import allocator (unat file_count) in5 of
        Inl err \<Rightarrow> Inl err
      | Inr (fs, in6) \<Rightarrow> Inr (Dir name ds fs, in6))"
| "subdirs_import allocator 0 inp = Inr ([], inp)"
| "subdirs_import allocator (Suc n) inp =
     (case pure64_dir_import allocator inp of
        Inl err \<Rightarrow> Inl err
      | Inr (d, in1) \<Rightarrow>
     case subdirs_import allocator n in1 of
        Inl err \<Rightarrow> Inl err
      | Inr (ds, in2) \<Rightarrow> Inr (d # ds, in2))"
  by pat_completeness auto

lemma fstream_read_unread:
  "fstream_read file n = Inr (buf, file') \<Longrightarrow> n \<le> unread file \<and> unread file' = unread file - n"
  by (auto simp: fstream_read_def fread_def unread_def Let_def split: if_splits)

lemma decode_uint64_unread:
  "decode_uint64 file = Inr (v, file') \<Longrightarrow> 8 \<le> unread file \<and> unread file' = unread file - 8"
  by (auto simp: decode_uint64_def split: sum.splits dest: fstream_read_unread)

lemma pure64_file_import_unread:
  "pure64_file_import m file = Inr (f, file') \<Longrightarrow> unread file' \<le> unread file"
  by (auto simp: pure64_file_import_def split: sum.splits if_splits
      dest!: fstream_read_unread decode_uint64_unread)

lemma files_import_unread:
  "files_import m n inp = Inr (fls, inp') \<Longrightarrow> unread inp' \<le> unread inp"
proof (induction n arbitrary: inp fls)
  case 0
  then show ?case by simp
next
  case (Suc n)
  then show ?case
    by (fastforce split: sum.splits dest: pure64_file_import_unread)
qed

lemma import_dom_unread:
  "pure64_dir_import_subdirs_import_dom (Inl (m, inp)) \<Longrightarrow>
     (\<forall>d inp'. pure64_dir_import m inp = Inr (d, inp') \<longrightarrow> unread inp' \<le> unread inp)"
  "pure64_dir_import_subdirs_import_dom (Inr (m, n, inp)) \<Longrightarrow>
     (\<forall>ds inp'. subdirs_import m n inp = Inr (ds, inp') \<longrightarrow> unread inp' \<le> unread inp)"
proof (induction m inp and m n inp rule: pure64_dir_import_subdirs_import.pinduct)
  case (1 m inp)
  show ?case
  proof (intro allI impI)
    fix d file'
    assume ok: "pure64_dir_import m inp = Inr (d, file')"
    from ok obtain name_size in1 subdir_count in2 file_count in3 name in4 ds in5 fs where
      d1: "decode_uint64 inp = Inr (name_size, in1)" and
      d2: "decode_uint64 in1 = Inr (subdir_count, in2)" and
      d3: "decode_uint64 in2 = Inr (file_count, in3)" and
      al: "\<not> (\<not> m (name_size + 1) \<or> \<not> m (subdir_count * sizeof_dir) \<or> \<not> m (file_count * sizeof_file))" and
      rd: "fstream_read in3 (unat name_size) = Inr (name, in4)" and
      sd: "subdirs_import m (unat subdir_count) in4 = Inr (ds, in5)" and
      fl: "files_import m (unat file_count) in5 = Inr (fs, file')"
      by (auto simp: pure64_dir_import.psimps [OF "1.hyps"] split: sum.splits if_splits)
    have "unread in5 \<le> unread in4"
      using "1.IH" [OF d1 refl d2 refl d3 refl al rd refl] sd by blast
    with d1 d2 d3 rd fl show "unread file' \<le> unread inp"
      by (auto dest!: decode_uint64_unread fstream_read_unread files_import_unread)
  qed
next
  case (2 m inp)
  then show ?case by (simp add: subdirs_import.psimps)
next
  case (3 m n inp)
  show ?case
  proof (intro allI impI)
    fix ds file'
    assume ok: "subdirs_import m (Suc n) inp = Inr (ds, file')"
    from ok obtain d in1 ds' where
      a: "pure64_dir_import m inp = Inr (d, in1)" and
      b: "subdirs_import m n in1 = Inr (ds', file')"
      by (auto simp: subdirs_import.psimps(2) [OF "3.hyps"] split: sum.splits)
    have "unread in1 \<le> unread inp" using "3.IH"(1) a by blast
    moreover have "unread file' \<le> unread in1" using "3.IH"(2) [OF a refl] b by blast
    ultimately show "unread file' \<le> unread inp" by simp
  qed
qed

termination pure64_dir_import
proof (relation "inv_image (measure id <*lex*> measure id)
         (\<lambda>x. case x of Inl (m, f) \<Rightarrow> (unread f, 0)
                      | Inr (m, n, f) \<Rightarrow> (unread f, Suc n))", goal_cases)
  case 1
  show ?case by (intro wf_inv_image wf_lex_prod wf_measure)
next
  case (2 m inp b x y ba xa ya bb xb yb bc xc yc)
  then show ?case
    by (auto dest!: decode_uint64_unread fstream_read_unread)
next
  case (3 m n inp)
  show ?case by simp
next
  case (4 m n inp b x y)
  then show ?case
    using import_dom_unread(1) [of m inp] by auto
qed

section \<open>The checksum is the reflected CRC-32\<close>

lemma crc32_mask: "- ((crc :: 32 word) AND 1) = (if bit crc 0 then - 1 else 0)"
  by (simp add: and_one_eq bit_0 odd_iff_mod_2_eq_one even_iff_mod_2_eq_zero)

lemma crc32_step:
  "drop_bit 1 crc XOR (0xEDB88320 AND - (crc AND 1)) = reflected_step (crc :: 32 word)"
  unfolding crc32_mask reflected_step_def by simp

lemma crc32_bits_funpow: "crc32_bits n crc = (reflected_step ^^ n) crc"
proof (induction n arbitrary: crc)
  case 0
  show ?case by simp
next
  case (Suc n)
  have "crc32_bits (Suc n) crc = crc32_bits n (reflected_step crc)"
    using crc32_step [of crc] by (simp add: Let_def)
  also have "\<dots> = (reflected_step ^^ n) (reflected_step crc)"
    by (rule Suc.IH)
  also have "\<dots> = (reflected_step ^^ Suc n) crc"
    by (simp add: funpow_swap1)
  finally show ?case .
qed

lemma crc32_bytes_foldl:
  "crc32_bytes buf crc = foldl (\<lambda>r b. (reflected_step ^^ 8) (r XOR ucast b)) crc buf"
  by (induction buf arbitrary: crc) (simp_all add: crc32_bits_funpow del: crc32_bits.simps)

lemma crc32_empty: "crc32 [] = 0x00000000"
  by (simp add: crc32_def)

lemma crc32_check_vector:
  "crc32 [0x31, 0x32, 0x33, 0x34, 0x35, 0x36, 0x37, 0x38, 0x39] = 0xCBF43926"
  by code_simp

text \<open>
  C2. \<open>crc32\<close> is the reflected CRC-32 of the specification (register \<open>0xFFFFFFFF\<close> at the
  start, the polynomial \<open>0xEDB88320\<close> XORed in after a shift when the low bit was set,
  eight steps for each byte, the complement at the end) on every buffer. It returns
  \<open>0x00000000\<close> on the empty buffer and \<open>0xCBF43926\<close> on the nine bytes of
  \<^verbatim>\<open>"123456789"\<close>, the ASCII codes \<open>0x31\<close> to \<open>0x39\<close>.
\<close>

theorem crc32_reflected:
  "crc32 buf = reflected_crc32 buf
   \<and> crc32 [] = 0x00000000
   \<and> crc32 [0x31, 0x32, 0x33, 0x34, 0x35, 0x36, 0x37, 0x38, 0x39] = 0xCBF43926"
proof (intro conjI)
  show "crc32 buf = reflected_crc32 buf"
    by (simp add: crc32_def reflected_crc32_def crc32_bytes_foldl)
  show "crc32 [] = 0x00000000"
    by (rule crc32_empty)
  show "crc32 [0x31, 0x32, 0x33, 0x34, 0x35, 0x36, 0x37, 0x38, 0x39] = 0xCBF43926"
    by (rule crc32_check_vector)
qed

section \<open>Reading and writing regions of a file\<close>

lemma length_pwrite: "length (pwrite c p buf) = max (length c) (p + length buf)"
  by (auto simp: pwrite_def)

lemma nth_pwrite:
  assumes "i < length (pwrite c p buf)"
  shows "pwrite c p buf ! i =
           (if i < p then (if i < length c then c ! i else 0)
            else if i < p + length buf then buf ! (i - p)
            else c ! i)"
proof -
  consider "i < p" "i < length c" | "i < p" "length c \<le> i" | "p \<le> i" "i < p + length buf"
    | "p + length buf \<le> i"
    by linarith
  then show ?thesis
  proof cases
    case 1
    then show ?thesis by (simp add: pwrite_def nth_append)
  next
    case 2
    then show ?thesis by (auto simp: pwrite_def nth_append min_def diff_less_mono)
  next
    case 3
    then show ?thesis by (auto simp: pwrite_def nth_append min_def)
  next
    case 4
    then have "i < length c" using assms by (simp add: length_pwrite)
    with 4 show ?thesis
      by (auto simp: pwrite_def nth_append min_def)
  qed
qed

lemma length_region: "q + n \<le> length c \<Longrightarrow> length (region c q n) = n"
  by (simp add: region_def)

lemma nth_region: "i < n \<Longrightarrow> q + n \<le> length c \<Longrightarrow> region c q n ! i = c ! (q + i)"
  by (simp add: region_def)

lemma region_pwrite_disjoint:
  assumes "q + n \<le> p \<or> p + length buf \<le> q" and "q + n \<le> length c"
  shows "region (pwrite c p buf) q n = region c q n"
proof (rule nth_equalityI)
  have le: "q + n \<le> length (pwrite c p buf)"
    using assms(2) by (simp add: length_pwrite)
  show "length (region (pwrite c p buf) q n) = length (region c q n)"
    using le assms(2) by (simp add: length_region)
  fix i
  assume "i < length (region (pwrite c p buf) q n)"
  then have i: "i < n" using le by (simp add: length_region)
  then have "q + i < length (pwrite c p buf)" using le by simp
  then show "region (pwrite c p buf) q n ! i = region c q n ! i"
    using i le assms by (auto simp: nth_region nth_pwrite)
qed

lemma region_pwrite_inside:
  assumes "q \<le> p" and "p + length buf \<le> q + n" and "q + n \<le> length c"
  shows "region (pwrite c p buf) q n
           = take (p - q) (region c q n) @ buf @ drop (p - q + length buf) (region c q n)"
proof (rule nth_equalityI)
  have le: "q + n \<le> length (pwrite c p buf)"
    using assms(3) by (simp add: length_pwrite)
  show len: "length (region (pwrite c p buf) q n)
      = length (take (p - q) (region c q n) @ buf @ drop (p - q + length buf) (region c q n))"
    using le assms by (simp add: length_region)
  fix i
  assume "i < length (region (pwrite c p buf) q n)"
  then have i: "i < n" using le by (simp add: length_region)
  then have "q + i < length (pwrite c p buf)" using le by simp
  then show "region (pwrite c p buf) q n ! i
      = (take (p - q) (region c q n) @ buf @ drop (p - q + length buf) (region c q n)) ! i"
    using i le assms
    by (auto simp: nth_region nth_pwrite nth_append length_region min_def add.commute)
qed

lemma fseek_Some: "fseek f x = Some f' \<longleftrightarrow> 0 \<le> x \<and> f' = f\<lparr>pos := nat x\<rparr>"
  by (auto simp: fseek_def)

lemma fread_region:
  "pos f + n \<le> length (content f) \<Longrightarrow> fread f n = (region (content f) (pos f) n, f\<lparr>pos := pos f + n\<rparr>)"
  by (simp add: fread_def region_def Let_def)

lemma fwrite_pwrite:
  "buf \<noteq> [] \<Longrightarrow> fwrite f buf = \<lparr>content = pwrite (content f) (pos f) buf, pos = pos f + length buf\<rparr>"
  by (simp add: fwrite_def pwrite_def)

lemma fwrite_at_end:
  "pos f = length (content f) \<Longrightarrow> fwrite f buf = \<lparr>content = content f @ buf, pos = pos f + length buf\<rparr>"
  by (simp add: fwrite_def)

lemma fwrite_past_end:
  "length (content f) \<le> pos f \<Longrightarrow> buf \<noteq> [] \<Longrightarrow>
   fwrite f buf = \<lparr>content = content f @ replicate (pos f - length (content f)) 0 @ buf,
                   pos = pos f + length buf\<rparr>"
  by (simp add: fwrite_def)

lemma foldl_fwrite_at_end:
  "pos f = length (content f) \<Longrightarrow>
   foldl fwrite f bufs = \<lparr>content = content f @ concat bufs, pos = pos f + length (concat bufs)\<rparr>"
proof (induction bufs arbitrary: f)
  case Nil
  then show ?case by simp
next
  case (Cons b bufs)
  then show ?case by (simp add: fwrite_at_end)
qed

lemma pwrite_pwrite_append:
  "pwrite (pwrite c p a) (p + length a) b = pwrite c p (a @ b)"
proof (rule nth_equalityI)
  show "length (pwrite (pwrite c p a) (p + length a) b) = length (pwrite c p (a @ b))"
    by (simp add: length_pwrite)
  fix i
  assume "i < length (pwrite (pwrite c p a) (p + length a) b)"
  then have i: "i < max (length c) (p + length a + length b)"
    by (simp add: length_pwrite)
  then have "i < length (pwrite c p (a @ b))" and "i < length (pwrite (pwrite c p a) (p + length a) b)"
    by (simp_all add: length_pwrite)
  moreover have "i < p + length a \<Longrightarrow> i < length (pwrite c p a)"
    by (simp add: length_pwrite)
  moreover have "p + length a + length b \<le> i \<Longrightarrow> i < length (pwrite c p a)"
    using i by (simp add: length_pwrite)
  ultimately show "pwrite (pwrite c p a) (p + length a) b ! i = pwrite c p (a @ b) ! i"
    by (auto simp: nth_pwrite nth_append)
qed

lemma fwrite_fwrite: "fwrite (fwrite f a) b = fwrite f (a @ b)"
proof (cases "a = [] \<or> b = []")
  case True
  then show ?thesis by (auto simp: fwrite_def)
next
  case False
  then show ?thesis
    by (simp add: fwrite_pwrite pwrite_pwrite_append)
qed

lemma zero_file_data_fwrite: "zero_file_data f n = fwrite f (replicate n 0)"
proof (induction n arbitrary: f)
  case 0
  show ?case by (simp add: fwrite_def)
next
  case (Suc n)
  show ?case by (simp add: Suc.IH fputc_def fwrite_fwrite)
qed

section \<open>Inserting into a directory\<close>

lemma pure64_strcmp_same: "pure64_strcmp a a = 0"
  by (induction a) simp_all

lemma file_name_exists_member:
  "name \<in> file_name ` set fs \<Longrightarrow> file_name_exists fs name"
  by (induction fs) (auto simp: pure64_strcmp_same)

lemma subdir_name_exists_member:
  "name \<in> dir_name ` set ds \<Longrightarrow> subdir_name_exists ds name"
  by (induction ds) (auto simp: pure64_strcmp_same)

text \<open>
  C7. When the name is the name of a file or of a subdirectory of the directory, both
  \<open>pure64_dir_add_file\<close> and \<open>pure64_dir_add_subdir\<close> return \<^verbatim>\<open>PURE64_EEXIST\<close> and leave the
  directory as it was: the same name, the same subdirectories and the same files, whatever
  the allocator would have answered.
\<close>

theorem duplicate_name_insert_fails:
  assumes "name \<in> file_name ` set (files dir) \<union> dir_name ` set (subdirs dir)"
  shows "pure64_dir_add_file allocator pure64_file_set_name dir name
           = (Some PURE64_EEXIST, dir)
         \<and> pure64_dir_add_subdir allocator dir name = (Some PURE64_EEXIST, dir)"
proof -
  have "pure64_dir_name_exists dir name"
    using assms file_name_exists_member [of name "files dir"]
      subdir_name_exists_member [of name "subdirs dir"]
    by (auto simp: pure64_dir_name_exists_def)
  then show ?thesis
    by (simp add: pure64_dir_add_file_def pure64_dir_add_subdir_def)
qed

theorem duplicate_name_insert_fails_witness:
  "(let dir = Dir [0x2F] [Dir [0x61] [] []] [File [0x62] [0x01, 0x02]]
    in pure64_dir_add_file (\<lambda>n. True) (\<lambda>f name. (None, File name (file_data f))) dir [0x61]
         = (Some PURE64_EEXIST, dir)
       \<and> pure64_dir_add_subdir (\<lambda>n. True) dir [0x62] = (Some PURE64_EEXIST, dir)
       \<and> fst (pure64_dir_add_subdir (\<lambda>n. True) dir [0x63]) = None)"
  using duplicate_name_insert_fails
          [of "[0x61]" "Dir [0x2F] [Dir [0x61] [] []] [File [0x62] [0x01, 0x02]]"
              "\<lambda>n. True" "\<lambda>f name. (None, File name (file_data f))"]
        duplicate_name_insert_fails
          [of "[0x62]" "Dir [0x2F] [Dir [0x61] [] []] [File [0x62] [0x01, 0x02]]"
              "\<lambda>n. True" "\<lambda>f name. (None, File name (file_data f))"]
  by (simp add: Let_def pure64_dir_add_subdir_def pure64_dir_name_exists_def
        pure64_dir_set_name_def pure64_strlen_def pure64_dir_init_def)

text \<open>
  C10. When the allocator refuses the array of the new child, or the name of the new
  child cannot be set (\<^verbatim>\<open>pure64_file_set_name\<close> returns an error, the allocator refuses
  the name of the new subdirectory), the insert returns a code other than 0; and whenever
  an insert returns a code other than 0, \<open>file_count\<close> and \<open>subdir_count\<close> of the
  directory are what they were.
\<close>

theorem failed_insert_keeps_counts:
  "(\<not> allocator ((dir_file_count dir + 1) * sizeof_file)
      \<or> fst (pure64_file_set_name pure64_file_init name) \<noteq> None
     \<longrightarrow> fst (pure64_dir_add_file allocator pure64_file_set_name dir name) \<noteq> None)
   \<and> (fst (pure64_dir_add_file allocator pure64_file_set_name dir name) \<noteq> None
     \<longrightarrow> dir_file_count (snd (pure64_dir_add_file allocator pure64_file_set_name dir name))
           = dir_file_count dir
         \<and> dir_subdir_count (snd (pure64_dir_add_file allocator pure64_file_set_name dir name))
           = dir_subdir_count dir)
   \<and> (\<not> allocator ((dir_subdir_count dir + 1) * sizeof_dir)
      \<or> \<not> allocator (pure64_strlen name + 1)
     \<longrightarrow> fst (pure64_dir_add_subdir allocator dir name) \<noteq> None)
   \<and> (fst (pure64_dir_add_subdir allocator dir name) \<noteq> None
     \<longrightarrow> dir_file_count (snd (pure64_dir_add_subdir allocator dir name))
           = dir_file_count dir
         \<and> dir_subdir_count (snd (pure64_dir_add_subdir allocator dir name))
           = dir_subdir_count dir)"
proof (intro conjI impI)
  assume "\<not> allocator ((dir_file_count dir + 1) * sizeof_file)
      \<or> fst (pure64_file_set_name pure64_file_init name) \<noteq> None"
  then show "fst (pure64_dir_add_file allocator pure64_file_set_name dir name) \<noteq> None"
    by (auto simp: pure64_dir_add_file_def Let_def split: prod.splits option.splits)
next
  assume "\<not> allocator ((dir_subdir_count dir + 1) * sizeof_dir)
      \<or> \<not> allocator (pure64_strlen name + 1)"
  then show "fst (pure64_dir_add_subdir allocator dir name) \<noteq> None"
    by (auto simp: pure64_dir_add_subdir_def pure64_dir_set_name_def Let_def
        split: prod.splits option.splits)
next
  assume e: "fst (pure64_dir_add_file allocator pure64_file_set_name dir name) \<noteq> None"
  then have "snd (pure64_dir_add_file allocator pure64_file_set_name dir name) = dir"
    by (auto simp: pure64_dir_add_file_def Let_def split: prod.splits option.splits if_splits)
  then show "dir_file_count (snd (pure64_dir_add_file allocator pure64_file_set_name dir name))
           = dir_file_count dir"
    and "dir_subdir_count (snd (pure64_dir_add_file allocator pure64_file_set_name dir name))
           = dir_subdir_count dir"
    by simp_all
next
  assume e: "fst (pure64_dir_add_subdir allocator dir name) \<noteq> None"
  then have "snd (pure64_dir_add_subdir allocator dir name) = dir"
    by (auto simp: pure64_dir_add_subdir_def Let_def split: prod.splits option.splits if_splits)
  then show "dir_file_count (snd (pure64_dir_add_subdir allocator dir name))
           = dir_file_count dir"
    and "dir_subdir_count (snd (pure64_dir_add_subdir allocator dir name))
           = dir_subdir_count dir"
    by simp_all
qed

theorem failed_insert_keeps_counts_witness:
  "(let dir = Dir [0x2F] [Dir [0x61] [] []] [File [0x62] [0x01, 0x02]];
        refuse = (\<lambda>n. False);
        set_name = (\<lambda>f name. (Some PURE64_ENOMEM, f))
    in pure64_dir_add_file refuse set_name dir [0x63] = (Some PURE64_ENOMEM, dir)
       \<and> dir_file_count (snd (pure64_dir_add_file refuse set_name dir [0x63])) = 1
       \<and> dir_subdir_count (snd (pure64_dir_add_file refuse set_name dir [0x63])) = 1
       \<and> pure64_dir_add_subdir refuse dir [0x63] = (Some PURE64_ENOMEM, dir)
       \<and> dir_file_count (snd (pure64_dir_add_subdir refuse dir [0x63])) = 1
       \<and> dir_subdir_count (snd (pure64_dir_add_subdir refuse dir [0x63])) = 1)"
  using failed_insert_keeps_counts
          [of "\<lambda>n. False" "Dir [0x2F] [Dir [0x61] [] []] [File [0x62] [0x01, 0x02]]"
              "\<lambda>f name. (Some PURE64_ENOMEM, f)" "[0x63]"]
  by (simp add: Let_def pure64_dir_add_file_def pure64_dir_add_subdir_def
        pure64_dir_name_exists_def dir_file_count_def dir_subdir_count_def)

section \<open>The layout of the image\<close>

lemma unat_of_nat64: "n < 2 ^ 64 \<Longrightarrow> unat (of_nat n :: 64 word) = n"
  by (simp add: unat_of_nat)

lemma stage_too_big_iff:
  assumes "n < 2 ^ 64 - 511"
  shows "stage_too_big (of_nat n) = (0x7F * 512 < n)"
proof -
  have "(of_nat n + 511 :: 64 word) = of_nat (n + 511)" by simp
  moreover have "unat (of_nat (n + 511) :: 64 word) = n + 511"
    using assms by (intro unat_of_nat64) simp
  ultimately have "unat ((of_nat n + 511) div 512 :: 64 word) = (n + 511) div 512"
    by (simp add: unat_div)
  then show ?thesis
    unfolding stage_too_big_def word_less_nat_alt by simp arith
qed

lemma round_sector64:
  assumes "n < 2 ^ 63"
  shows "unat (((of_nat n :: 64 word) + 511) div 512 * 512) = (n + 511) div 512 * 512"
proof -
  have a: "(of_nat n + 511 :: 64 word) = of_nat (n + 511)" by simp
  have b: "unat (of_nat (n + 511) :: 64 word) = n + 511"
    using assms by (intro unat_of_nat64) simp
  have c: "unat ((of_nat n + 511) div 512 :: 64 word) = (n + 511) div 512"
    using a b by (simp add: unat_div)
  have "(n + 511) div 512 * 512 < 2 ^ 64" using assms by simp
  then show ?thesis
    using c by (simp add: unat_word_ariths)
qed

text \<open>
  C4. The claim has \<open>stage3_offset < filesystem_offset\<close> for all sizes that pass the size
  check. \<^verbatim>\<open>ramfs_export\<close> adds the size of stage 3 to the offset of stage 3 before that
  offset is rounded up, and rounds the sum: with a stage 2 of 1 byte and a stage 3 of 511
  bytes, both of which pass the check, stage 3 and the file system are both placed at
  \<open>0x2200\<close>, 8704, and the file system is written over stage 3.
\<close>

theorem layout_offsets_not_increasing:
  "\<not> stage_too_big 1 \<and> \<not> stage_too_big 511
   \<and> layout_offsets 1 511 = (0x2000, 0x2200, 0x2200)"
  by (simp add: stage_too_big_def layout_offsets_def)

subsection \<open>Offsets, sizes and padding\<close>

lemma sint_small:
  assumes "unat (w :: 64 word) < 2 ^ 63"
  shows "sint w = int (unat w)"
proof -
  have "int (unat w) < int (2 ^ 63)" using assms by (rule of_nat_less_iff [THEN iffD2])
  then have "uint w < 2 ^ 63" by simp
  moreover have "- (2 ^ 63) \<le> uint w"
    by (rule order_trans [OF _ uint_ge_0]) simp
  ultimately have "signed_take_bit 63 (uint w) = uint w"
    by (intro signed_take_bit_int_eq_self)
  then show ?thesis by (simp add: sint_uint)
qed

lemma sint_nonneg_small:
  assumes "0 \<le> sint (w :: 64 word)"
  shows "unat w < 2 ^ 63"
proof -
  have lt: "sint w < 2 ^ 63" using sint_lt [of w] by simp
  have "uint w = take_bit 64 (sint w)" using uint_sint [of w] by simp
  also have "\<dots> = sint w"
    using assms lt by (intro take_bit_int_eq_self) simp_all
  finally have "int (unat w) < int (2 ^ 63)" using lt by simp
  then show ?thesis by (rule of_nat_less_iff [THEN iffD1])
qed

lemma length_content_fwrite:
  "length (content (fwrite f buf))
     = (if buf = [] then length (content f) else max (length (content f)) (pos f + length buf))"
  by (auto simp: fwrite_def)

lemma pos_fwrite: "pos (fwrite f buf) = pos f + length buf"
  by (simp add: fwrite_def)

lemma round_sector_unat:
  assumes "unat (x :: 64 word) < 2 ^ 63"
  shows "unat ((x + 511) div 512 * 512) = round512 (unat x)"
proof -
  have a: "unat (x + 511) = unat x + 511"
    using assms by (subst unat_add_lem [THEN iffD1]) simp_all
  have b: "unat ((x + 511) div 512) = (unat x + 511) div 512"
    by (simp add: unat_div a)
  have "unat ((x + 511) div 512 * 512) = unat ((x + 511) div 512) * unat (512 :: 64 word)"
    using assms b by (subst unat_mult_lem [THEN iffD1]) simp_all
  then show ?thesis by (simp add: b round512_def)
qed

lemma layout_offsets_unat:
  assumes "unat s2 \<le> 0x7F * 512" and "unat s3 \<le> 0x7F * 512"
  shows "\<exists>st3 fs. layout_offsets s2 s3 = (0x2000, st3, fs)
           \<and> unat st3 = round512 (8192 + unat s2)
           \<and> unat fs = round512 (8192 + unat s2 + unat s3)"
proof -
  have a: "unat (0x2000 + s2) = 8192 + unat s2"
    using assms by (subst unat_add_lem [THEN iffD1]) simp_all
  have b: "unat (0x2000 + s2 + s3) = 8192 + unat s2 + unat s3"
    using assms a by (subst unat_add_lem [THEN iffD1]) simp_all
  have c: "unat ((0x2000 + s2 + 511) div 512 * 512) = round512 (8192 + unat s2)"
    using assms a round_sector_unat [of "0x2000 + s2"] by simp
  have d: "unat ((0x2000 + s2 + s3 + 511) div 512 * 512) = round512 (8192 + unat s2 + unat s3)"
    using assms b round_sector_unat [of "0x2000 + s2 + s3"] by simp
  have e: "((0x2000 + 511) div 512 * 512 :: 64 word) = 0x2000" by simp
  show ?thesis
    unfolding layout_offsets_def Let_def e using c d by simp
qed


lemma round512_bounds: "n \<le> round512 n \<and> round512 n \<le> n + 511 \<and> round512 n mod 512 = 0"
  unfolding round512_def by (simp add: algebra_simps)

lemma fseek_unat:
  assumes "unat (w :: 64 word) < 2 ^ 63"
  shows "fseek f (sint w) = Some (f\<lparr>pos := unat w\<rparr>)"
  using assms by (simp add: fseek_def sint_small)

lemma ramfs_write_ok:
  assumes n2: "length s2 \<le> 0x7F * 512" and n3: "length s3 \<le> 0x7F * 512"
  shows "\<exists>f. ramfs_write m s2 s3 fs = Inr f
           \<and> pos f = round512 (8192 + length s2 + length s3) + length fs
           \<and> length (content f) \<le> max (max (length m) 138751) (pos f)
           \<and> (fs \<noteq> [] \<longrightarrow> pos f \<le> length (content f))"
proof -
  have u2: "unat (of_nat (length s2) :: 64 word) = length s2"
    using n2 by (intro unat_of_nat64) simp
  have u3: "unat (of_nat (length s3) :: 64 word) = length s3"
    using n3 by (intro unat_of_nat64) simp
  have ok2: "\<not> stage_too_big (of_nat (length s2))"
    using n2 by (subst stage_too_big_iff) simp_all
  have ok3: "\<not> stage_too_big (of_nat (length s3))"
    using n3 by (subst stage_too_big_iff) simp_all
  obtain st3 fso where
    lay: "layout_offsets (of_nat (length s2)) (of_nat (length s3)) = (0x2000, st3, fso)" and
    st3: "unat st3 = round512 (8192 + length s2)" and
    fso: "unat fso = round512 (8192 + length s2 + length s3)"
    using layout_offsets_unat [of "of_nat (length s2)" "of_nat (length s3)"] n2 n3
    by (auto simp: u2 u3)
  have b3: "unat st3 \<le> 8192 + length s2 + 511" and b3': "8192 + length s2 \<le> unat st3"
    using round512_bounds [of "8192 + length s2"] st3 by simp_all
  have bf: "unat fso \<le> 8192 + length s2 + length s3 + 511"
    using round512_bounds [of "8192 + length s2 + length s3"] fso by simp
  have s1: "fseek g 8192 = Some (g\<lparr>pos := 8192\<rparr>)" for g
    by (simp add: fseek_def)
  have s2: "fseek g (sint st3) = Some (g\<lparr>pos := unat st3\<rparr>)" for g
    using b3 n2 by (intro fseek_unat) simp
  have s3: "fseek g (sint fso) = Some (g\<lparr>pos := unat fso\<rparr>)" for g
    using bf n2 n3 by (intro fseek_unat) simp
  define f where "f = fwrite ((fwrite ((fwrite ((fwrite fopen_wb m)\<lparr>pos := 8192\<rparr>) s2)
      \<lparr>pos := unat st3\<rparr>) s3)\<lparr>pos := unat fso\<rparr>) fs"
  have r: "ramfs_write m s2 s3 fs = Inr f"
    using ok2 ok3 by (simp add: ramfs_write_def Let_def lay s1 s2 s3 f_def)
  have p: "pos f = unat fso + length fs"
    by (simp add: f_def pos_fwrite)
  have l: "length (content f) \<le> max (max (length m) 138751) (pos f)"
    using b3 n2 n3 unfolding p
    by (auto simp: f_def length_content_fwrite pos_fwrite fopen_wb_def)
  have g: "fs \<noteq> [] \<longrightarrow> pos f \<le> length (content f)"
    unfolding p by (auto simp: f_def length_content_fwrite pos_fwrite)
  show ?thesis using r p l g fso by auto
qed

lemma length_pad_image:
  "length (content (pad_image f))
     = (if pos f < 1048576 then max (length (content f)) 1048576
        else if pos f mod 512 \<noteq> 0 then max (length (content f)) (pos f + (512 - pos f mod 512))
        else length (content f))"
proof -
  have m: "int (pos f) mod 512 = int (pos f mod 512)" by (simp add: zmod_int)
  have n: "nat (int (pos f) + (512 - int (pos f mod 512)) - 1) = pos f + (512 - pos f mod 512) - 1"
    by (simp add: nat_add_distrib nat_diff_distrib)
  show ?thesis
    by (auto simp: pad_image_def ftell_def PURE64_MINIMUM_DISK_SIZE_def seek_unchecked_def
        fseek_def fputc_def length_content_fwrite Let_def m n)
qed

lemma update_mbr_ok:
  assumes "512 \<le> length (content f)"
  shows "\<exists>f' x y. update_mbr mbr_patch f s2 s3 = Inr f'
           \<and> length (content f')
               = max (length (content f)) (length (mbr_patch (region (content f) 0 512) x y))"
proof -
  obtain a b c where lay: "layout_offsets s2 s3 = (a, b, c)"
    by (cases "layout_offsets s2 s3") auto
  define x where "x = (a div 512, (s2 + 511) div 512)"
  define y where "y = (b div 512, (s3 + 511) div 512)"
  have rd: "fread (f\<lparr>pos := 0\<rparr>) 512 = (region (content f) 0 512, f\<lparr>pos := 512\<rparr>)"
    using assms fread_region [of "f\<lparr>pos := 0\<rparr>" 512] by simp
  have len: "length (region (content f) 0 512) = 512"
    using assms by (simp add: length_region)
  have u: "update_mbr mbr_patch f s2 s3
      = Inr (fwrite (f\<lparr>pos := 0\<rparr>) (mbr_patch (region (content f) 0 512) x y))"
    by (simp add: update_mbr_def lay fseek_def rd len Let_def x_def y_def)
  have "length (content (fwrite (f\<lparr>pos := 0\<rparr>) (mbr_patch (region (content f) 0 512) x y)))
      = max (length (content f)) (length (mbr_patch (region (content f) 0 512) x y))"
    by (simp add: length_content_fwrite)
  with u show ?thesis by blast
qed

lemma round_up_z:
  assumes "(p::nat) mod 512 = 0"
  shows "(p + 511) div 512 * 512 = p"
proof -
  from assms obtain q where p: "p = 512 * q" by (auto simp: mod_eq_0_iff_dvd)
  have "(512 * q + 511) div 512 = q" by simp
  then show ?thesis by (simp add: p)
qed

lemma round_up_nz:
  assumes "(p::nat) mod 512 \<noteq> 0"
  shows "p + (512 - p mod 512) = (p + 511) div 512 * 512"
proof -
  define q where "q = p div 512"
  define r where "r = p mod 512"
  have p: "p = 512 * q + r" by (simp add: q_def r_def)
  have r: "0 < r" "r < 512" using assms by (simp_all add: r_def)
  have "(r + 511) div 512 = 1" using r by (intro div_nat_eqI) simp_all
  then have "(512 * q + r + 511) div 512 = q + 1"
    using div_mult_self4 [of 512 q "r + 511"] by (simp add: add.assoc)
  moreover have "p mod 512 = r" by (simp add: r_def)
  ultimately show ?thesis using r by (simp add: p)
qed

lemma padded_length:
  assumes w: "ramfs_write m s2 s3 fs = Inr f"
    and p: "pos f = round512 (8192 + length s2 + length s3) + length fs"
    and l: "length (content f) \<le> max (max (length m) 138751) (pos f)"
    and g: "fs \<noteq> [] \<longrightarrow> pos f \<le> length (content f)"
    and n2: "length s2 \<le> 0x7F * 512" and n3: "length s3 \<le> 0x7F * 512"
  shows "1048576 \<le> length (content (pad_image f))"
    and "length m = 512 \<Longrightarrow>
         length (content (pad_image f))
           = (if pos f < 1048576 then 1048576 else (pos f + 511) div 512 * 512)"
proof -
  have r: "round512 (8192 + length s2 + length s3) \<le> 138751"
    using round512_bounds [of "8192 + length s2 + length s3"] n2 n3 by simp
  have ge: "pos f \<le> length (content f)" if "1048576 \<le> pos f"
  proof (cases "fs = []")
    case True
    then show ?thesis using p r that by simp
  next
    case False
    then show ?thesis using g by simp
  qed
  show "1048576 \<le> length (content (pad_image f))"
  proof (cases "pos f < 1048576")
    case True
    then show ?thesis by (simp add: length_pad_image)
  next
    case False
    then have "1048576 \<le> length (content f)" using ge by simp
    with False show ?thesis by (simp add: length_pad_image le_max_iff_disj)
  qed
  assume m: "length m = 512"
  show "length (content (pad_image f))
           = (if pos f < 1048576 then 1048576 else (pos f + 511) div 512 * 512)"
  proof (cases "pos f < 1048576")
    case True
    then have "length (content f) \<le> 1048576" using l m by simp
    with True show ?thesis by (simp add: length_pad_image)
  next
    case False
    then have e: "length (content f) = pos f" using ge l m by simp
    show ?thesis
    proof (cases "pos f mod 512 = 0")
      case True
      then have "(pos f + 511) div 512 * 512 = pos f" by (rule round_up_z)
      with True False e show ?thesis by (simp add: length_pad_image)
    next
      case nz: False
      then have "pos f + (512 - pos f mod 512) = (pos f + 511) div 512 * 512"
        by (rule round_up_nz)
      with nz False e show ?thesis by (simp add: length_pad_image)
    qed
  qed
qed

text \<open>
  C6. For stage binaries whose sizes do not wrap \<open>size + 511\<close> around in 64 bits (any
  binary that fits in memory), \<^verbatim>\<open>ramfs_export\<close> returns \<^verbatim>\<open>EXIT_SUCCESS\<close> exactly when
  neither stage 2 nor stage 3 is longer than \<open>0x7F * 512\<close>, 65024 bytes; otherwise it
  returns \<^verbatim>\<open>EXIT_FAILURE\<close>, the only other result. A binary of 65024 bytes is accepted and
  one of 65025 bytes is rejected.
\<close>

theorem stage_size_limit:
  assumes "length pure64_data < 2 ^ 64 - 511" and "length stage_three_data < 2 ^ 64 - 511"
  shows "(\<exists>file. ramfs_export mbr_patch mbr_data pure64_data stage_three_data fs_image = Inr file)
           \<longleftrightarrow> length pure64_data \<le> 0x7F * 512 \<and> length stage_three_data \<le> 0x7F * 512"
proof
  assume "\<exists>file. ramfs_export mbr_patch mbr_data pure64_data stage_three_data fs_image = Inr file"
  then obtain written where
    "ramfs_write mbr_data pure64_data stage_three_data fs_image = Inr written"
    by (auto simp: ramfs_export_def split: sum.splits)
  then have "\<not> stage_too_big (of_nat (length pure64_data))"
    and "\<not> stage_too_big (of_nat (length stage_three_data))"
    by (auto simp: ramfs_write_def Let_def split: if_splits)
  then show "length pure64_data \<le> 0x7F * 512 \<and> length stage_three_data \<le> 0x7F * 512"
    using assms by (simp add: stage_too_big_iff)
next
  assume ok: "length pure64_data \<le> 0x7F * 512 \<and> length stage_three_data \<le> 0x7F * 512"
  then obtain written where
    w: "ramfs_write mbr_data pure64_data stage_three_data fs_image = Inr written" and
    p: "pos written = round512 (8192 + length pure64_data + length stage_three_data)
          + length fs_image" and
    l: "length (content written) \<le> max (max (length mbr_data) 138751) (pos written)" and
    g: "fs_image \<noteq> [] \<longrightarrow> pos written \<le> length (content written)"
    using ramfs_write_ok [of pure64_data stage_three_data mbr_data fs_image] by auto
  have "512 \<le> length (content (pad_image written))"
    using padded_length(1) [OF w p l g] ok by simp
  then show "\<exists>file. ramfs_export mbr_patch mbr_data pure64_data stage_three_data fs_image
      = Inr file"
    using update_mbr_ok [of "pad_image written" mbr_patch] w
    by (fastforce simp: ramfs_export_def)
qed

theorem stage_size_limit_witness:
  "(\<exists>file. ramfs_export (\<lambda>mbr a b. mbr) (replicate 512 0)
             (replicate 65024 0) (replicate 65024 0) [] = Inr file)
   \<and> ramfs_export (\<lambda>mbr a b. mbr) (replicate 512 0)
         (replicate 65025 0) (replicate 65024 0) [] = Inl EXIT_FAILURE
   \<and> ramfs_export (\<lambda>mbr a b. mbr) (replicate 512 0)
         (replicate 65024 0) (replicate 65025 0) [] = Inl EXIT_FAILURE"
proof -
  have "\<exists>file. ramfs_export (\<lambda>mbr a b. mbr) (replicate 512 0)
             (replicate 65024 0) (replicate 65024 0) [] = Inr file"
    using stage_size_limit [of "replicate 65024 0" "replicate 65024 0" "\<lambda>mbr a b. mbr"
        "replicate 512 0" "[]"]
    by simp
  moreover have "ramfs_export (\<lambda>mbr a b. mbr) (replicate 512 0)
         (replicate 65025 0) (replicate 65024 0) [] = Inl EXIT_FAILURE"
    by (simp add: ramfs_export_def ramfs_write_def stage_too_big_def)
  moreover have "ramfs_export (\<lambda>mbr a b. mbr) (replicate 512 0)
         (replicate 65024 0) (replicate 65025 0) [] = Inl EXIT_FAILURE"
    by (simp add: ramfs_export_def ramfs_write_def stage_too_big_def)
  ultimately show ?thesis by simp
qed

text \<open>
  C8. With a boot sector of 512 bytes, stages that pass the size check and a patch of the
  boot sector that keeps its length, \<^verbatim>\<open>ramfs_export\<close> succeeds, and the image it leaves
  is as long as the claim says: with \<open>P\<close> the position after the file system has been
  written (\<open>ftell\<close> of the file that \<open>ramfs_write\<close> returns), the length is
  \<^verbatim>\<open>PURE64_MINIMUM_DISK_SIZE\<close> when \<open>P\<close> is below it, and otherwise \<open>P\<close> rounded up to
  a multiple of 512, which is \<open>P\<close> when \<open>P\<close> is one. The length is a multiple of 512 and
  not below the minimum.
\<close>

theorem padded_image_length:
  assumes "length mbr_data = 512"
    and "length pure64_data \<le> 0x7F * 512" and "length stage_three_data \<le> 0x7F * 512"
    and "\<And>mbr a b. length (mbr_patch mbr a b) = length mbr"
  shows "\<exists>written file.
           ramfs_write mbr_data pure64_data stage_three_data fs_image = Inr written
           \<and> ramfs_export mbr_patch mbr_data pure64_data stage_three_data fs_image = Inr file
           \<and> int (length (content file))
               = (if ftell written < PURE64_MINIMUM_DISK_SIZE then PURE64_MINIMUM_DISK_SIZE
                  else (ftell written + 511) div 512 * 512)
           \<and> length (content file) mod 512 = 0
           \<and> PURE64_MINIMUM_DISK_SIZE \<le> int (length (content file))"
proof -
  obtain written where
    w: "ramfs_write mbr_data pure64_data stage_three_data fs_image = Inr written" and
    p: "pos written = round512 (8192 + length pure64_data + length stage_three_data)
          + length fs_image" and
    l: "length (content written) \<le> max (max (length mbr_data) 138751) (pos written)" and
    g: "fs_image \<noteq> [] \<longrightarrow> pos written \<le> length (content written)"
    using ramfs_write_ok [of pure64_data stage_three_data mbr_data fs_image] assms(2,3) by auto
  have big: "1048576 \<le> length (content (pad_image written))"
    using padded_length(1) [OF w p l g] assms(2,3) by simp
  have len: "length (content (pad_image written))
      = (if pos written < 1048576 then 1048576 else (pos written + 511) div 512 * 512)"
    using padded_length(2) [OF w p l g] assms(1,2,3) by simp
  obtain image x y where
    u: "update_mbr mbr_patch (pad_image written) (of_nat (length pure64_data))
          (of_nat (length stage_three_data)) = Inr image" and
    ul: "length (content image) = max (length (content (pad_image written)))
          (length (mbr_patch (region (content (pad_image written)) 0 512) x y))"
    using update_mbr_ok [of "pad_image written" mbr_patch] big by fastforce
  have "length (mbr_patch (region (content (pad_image written)) 0 512) x y) = 512"
    using assms(4) big by (simp add: length_region)
  then have fl: "length (content image) = length (content (pad_image written))"
    using ul big by simp
  have e: "ramfs_export mbr_patch mbr_data pure64_data stage_three_data fs_image = Inr image"
    using w u by (simp add: ramfs_export_def)
  have i1: "int ((pos written + 511) div 512 * 512) = (int (pos written) + 511) div 512 * 512"
    by (simp add: zdiv_int)
  have a1: "int (length (content image))
      = (if ftell written < PURE64_MINIMUM_DISK_SIZE then PURE64_MINIMUM_DISK_SIZE
         else (ftell written + 511) div 512 * 512)"
    unfolding fl len ftell_def PURE64_MINIMUM_DISK_SIZE_def using i1 by simp
  have a2: "length (content image) mod 512 = 0"
    unfolding fl len by simp
  have a3: "PURE64_MINIMUM_DISK_SIZE \<le> int (length (content image))"
    unfolding fl PURE64_MINIMUM_DISK_SIZE_def using big by simp
  show ?thesis
    using w e a1 a2 a3 by (intro exI [of _ written] exI [of _ image] conjI)
qed

theorem padded_image_length_witness:
  "(\<exists>written file.
      ramfs_write (replicate 512 0) [0xAA] [0xBB] [0xCC] = Inr written
      \<and> ramfs_export (\<lambda>mbr a b. mbr) (replicate 512 0) [0xAA] [0xBB] [0xCC] = Inr file
      \<and> ftell written = 8705
      \<and> length (content file) = 1048576)
   \<and> (\<exists>written file.
      ramfs_write (replicate 512 0) [0xAA] [0xBB] (replicate 1048577 0xCC) = Inr written
      \<and> ramfs_export (\<lambda>mbr a b. mbr) (replicate 512 0) [0xAA] [0xBB] (replicate 1048577 0xCC)
          = Inr file
      \<and> ftell written = 1057281
      \<and> length (content file) = 1057792)"
proof (intro conjI)
  obtain written image where
    w: "ramfs_write (replicate 512 0) [0xAA] [0xBB] [0xCC] = Inr written" and
    e: "ramfs_export (\<lambda>mbr a b. mbr) (replicate 512 0) [0xAA] [0xBB] [0xCC] = Inr image" and
    l: "int (length (content image))
         = (if ftell written < PURE64_MINIMUM_DISK_SIZE then PURE64_MINIMUM_DISK_SIZE
            else (ftell written + 511) div 512 * 512)"
    using padded_image_length [of "replicate 512 0" "[0xAA]" "[0xBB]" "\<lambda>mbr a b. mbr" "[0xCC]"]
    by auto
  have p: "ftell written = 8705"
    using ramfs_write_ok [of "[0xAA]" "[0xBB]" "replicate 512 0" "[0xCC]"] w
    by (auto simp: ftell_def round512_def)
  have "length (content image) = 1048576"
    using l p by (simp add: PURE64_MINIMUM_DISK_SIZE_def)
  with w e p show "\<exists>written file.
      ramfs_write (replicate 512 0) [0xAA] [0xBB] [0xCC] = Inr written
      \<and> ramfs_export (\<lambda>mbr a b. mbr) (replicate 512 0) [0xAA] [0xBB] [0xCC] = Inr file
      \<and> ftell written = 8705
      \<and> length (content file) = 1048576"
    by (intro exI [of _ written] exI [of _ image] conjI)
next
  obtain written image where
    w: "ramfs_write (replicate 512 0) [0xAA] [0xBB] (replicate 1048577 0xCC) = Inr written" and
    e: "ramfs_export (\<lambda>mbr a b. mbr) (replicate 512 0) [0xAA] [0xBB] (replicate 1048577 0xCC)
          = Inr image" and
    l: "int (length (content image))
         = (if ftell written < PURE64_MINIMUM_DISK_SIZE then PURE64_MINIMUM_DISK_SIZE
            else (ftell written + 511) div 512 * 512)"
    using padded_image_length [of "replicate 512 0" "[0xAA]" "[0xBB]" "\<lambda>mbr a b. mbr"
        "replicate 1048577 0xCC"]
    by auto
  have p: "ftell written = 1057281"
    using ramfs_write_ok [of "[0xAA]" "[0xBB]" "replicate 512 0" "replicate 1048577 0xCC"] w
    by (auto simp: ftell_def round512_def)
  have "length (content image) = 1057792"
    using l p by (simp add: PURE64_MINIMUM_DISK_SIZE_def)
  with w e p show "\<exists>written file.
      ramfs_write (replicate 512 0) [0xAA] [0xBB] (replicate 1048577 0xCC) = Inr written
      \<and> ramfs_export (\<lambda>mbr a b. mbr) (replicate 512 0) [0xAA] [0xBB] (replicate 1048577 0xCC)
          = Inr file
      \<and> ftell written = 1057281
      \<and> length (content file) = 1057792"
    by (intro exI [of _ written] exI [of _ image] conjI)
qed

section \<open>The empty GPT disk\<close>

subsection \<open>Fields, sectors and the checksum pass\<close>

lemma length_le_bytes: "length (le_bytes n w) = n"
  by (simp add: le_bytes_def)

lemma length_le32: "length (le32 w) = 4"
  by (simp add: le32_def length_le_bytes)

lemma length_le64: "length (le64 w) = 8"
  by (simp add: le64_def length_le_bytes)

lemma word_rcat_le_bytes:
  fixes w :: "'a::len word"
  assumes "LENGTH('a) \<le> 8 * k"
  shows "word_rcat (rev (le_bytes k w)) = w"
proof (rule bit_word_eqI)
  fix n
  assume n: "n < LENGTH('a)"
  then have k: "n div 8 < k" using assms by (simp add: less_mult_imp_div_less mult.commute)
  have "bit (word_rcat (rev (le_bytes k w)) :: 'a word) n
      \<longleftrightarrow> bit (horner_sum uint (2 ^ LENGTH(8)) (le_bytes k w)) n"
    using n by (simp add: word_rcat_def bit_word_of_int_iff)
  also have "\<dots> \<longleftrightarrow> bit (le_bytes k w ! (n div 8)) (n mod 8)"
    using k bit_horner_sum_uint_exp_iff [of "le_bytes k w" n]
    by (simp add: length_le_bytes)
  also have "\<dots> \<longleftrightarrow> bit w (8 * (n div 8) + n mod 8)"
    using k by (simp add: le_bytes_def bit_ucast_iff bit_drop_bit_eq)
  finally show "bit (word_rcat (rev (le_bytes k w)) :: 'a word) n \<longleftrightarrow> bit w n"
    by simp
qed

lemma of_le32_le32: "of_le32 (le32 w) = w"
  by (simp add: of_le32_def le32_def word_rcat_le_bytes)

lemma of_le64_le64: "of_le64 (le64 w) = w"
  by (simp add: of_le64_def le64_def word_rcat_le_bytes)

lemma concat_replicate4: "length (concat (replicate n [a, b, c, d])) = 4 * n"
  by (induction n) simp_all

lemma length_gpt_sector:
  "length (gpt_sector h) = 496 + min 16 (length (disk_uuid h))"
  by (simp add: gpt_sector_def gpt_header_fields_def length_le64 length_le32 concat_replicate4)

lemma sum_list_gpt_fields:
  "sum_list (map length (gpt_header_fields h)) = length (gpt_sector h)"
  by (simp add: gpt_sector_def length_concat)

lemma gpt_sector_fields:
  assumes "16 \<le> length (disk_uuid h)"
  shows "take 4 (drop 16 (gpt_sector h)) = [0, 0, 0, 0]"
    and "take 8 (drop 32 (gpt_sector h)) = le64 (backup_lba h)"
    and "take 8 (drop 72 (gpt_sector h)) = le64 (partition_headers_lba h)"
    and "take 4 (drop 88 (gpt_sector h)) = [0, 0, 0, 0]"
  using assms
  by (simp_all add: gpt_sector_def gpt_header_fields_def length_le64 length_le32)


lemma unat_lt64: "unat (w :: 64 word) < 2 ^ 64"
  using unsigned_less [of w, where ?'a = nat] by simp

lemma unat_sub_cases:
  "unat ((x :: 64 word) - y)
     = (if unat y \<le> unat x then unat x - unat y else unat x + 2 ^ 64 - unat y)"
  using unat_sub_if_size [of x y] by (simp add: word_size)

lemma unat_add_cases:
  "unat ((x :: 64 word) + y) = unat x + unat y \<or> unat (x + y) + 2 ^ 64 = unat x + unat y"
proof (cases "unat x + unat y < 2 ^ 64")
  case True
  then show ?thesis by (simp add: unat_add_lem [THEN iffD1])
next
  case False
  have "unat x + unat y < 2 ^ 64 + 2 ^ 64"
    using unat_lt64 [of x] unat_lt64 [of y] by simp
  then have "(unat x + unat y) mod 2 ^ 64 = unat x + unat y - 2 ^ 64"
    using False by (simp add: mod_if)
  then show ?thesis using False by (simp add: unat_word_ariths)
qed

lemma pad_disk_size_cases:
  "unat ds \<le> unat (pad_disk_size ds) \<or> unat (pad_disk_size ds) < 512"
proof (cases "ds mod 512 = 0")
  case True
  then show ?thesis by (simp add: pad_disk_size_def)
next
  case False
  have m: "unat (ds mod 512) = unat ds mod 512" by (simp add: unat_mod)
  then have "unat (ds mod 512) < 512" by simp
  then have k: "unat (512 - ds mod 512) = 512 - unat (ds mod 512)"
    by (subst unat_sub) (simp_all add: word_le_nat_alt)
  then have k': "unat (512 - ds mod 512) \<le> 512" by simp
  show ?thesis
    using unat_add_cases [of ds "512 - ds mod 512"] k' unat_lt64 [of ds] False
    by (auto simp: pad_disk_size_def)
qed


lemma backup_array_location_eq: "backup_array_location B = B * 512 - 16384"
  by (simp add: backup_array_location_def GPT_PARTITION_HEADER_COUNT_def
      GPT_PARTITION_HEADER_SIZE_def)

lemma backup_lba_facts:
  assumes ok: "disk_size_ok ds"
    and s1: "0 \<le> sint (backup_array_location B)"
    and s2: "0 \<le> sint (B * 512)"
    and B: "B = (pad_disk_size ds - 512) div 512"
  shows "191 \<le> unat B" and "unat (B * 512) = unat B * 512" and "unat B * 512 < 2 ^ 63"
    and "unat (backup_array_location B) = unat B * 512 - 16384"
proof -
  define X where "X = pad_disk_size ds - 512"
  have uB: "unat B = unat X div 512" by (simp add: B X_def unat_div)
  then have m: "unat B * 512 \<le> unat X" by simp
  then have "unat B * unat (512 :: 64 word) < 2 ^ 64"
    using unat_lt64 [of X] by simp
  then show nb: "unat (B * 512) = unat B * 512"
    by (subst unat_mult_lem [THEN iffD1]) simp_all
  show lt: "unat B * 512 < 2 ^ 63"
    using sint_nonneg_small [OF s2] nb by simp
  have l: "unat (B * 512 - 16384) < 2 ^ 63"
    using sint_nonneg_small [OF s1] by (simp add: backup_array_location_eq)
  have ge: "16384 \<le> unat B * 512"
  proof (rule ccontr)
    assume "\<not> 16384 \<le> unat B * 512"
    then have "unat (B * 512 - 16384) = unat B * 512 + 2 ^ 64 - 16384"
      by (simp add: unat_sub_cases nb)
    then show False using l by simp
  qed
  then show "unat (backup_array_location B) = unat B * 512 - 16384"
    by (simp add: backup_array_location_eq unat_sub_cases nb)
  have d: "98488 \<le> unat ds"
    using ok by (simp add: disk_size_ok_def minimum_size_def GPT_HEADER_SIZE_def
        GPT_PARTITION_HEADER_COUNT_def GPT_PARTITION_HEADER_SIZE_def not_less word_le_nat_alt)
  show "191 \<le> unat B"
  proof (cases "unat ds \<le> unat (pad_disk_size ds)")
    case True
    then have "unat X = unat (pad_disk_size ds) - 512"
      using d by (simp add: X_def unat_sub_cases)
    then have "97976 \<le> unat X" using True d by simp
    then have "97976 div 512 \<le> unat X div 512" by (rule div_le_mono)
    then show ?thesis by (simp add: uB)
  next
    case False
    then have "unat (pad_disk_size ds) < 512"
      using pad_disk_size_cases [of ds] by simp
    then have "unat X = unat (pad_disk_size ds) + 2 ^ 64 - 512"
      by (simp add: X_def unat_sub_cases)
    then have "2 ^ 64 - 512 \<le> unat X" by simp
    then have "(2 ^ 64 - 512) div 512 \<le> unat X div 512" by (rule div_le_mono)
    then have "2 ^ 55 - 1 \<le> unat B" by (simp add: uB)
    then show ?thesis using lt by simp
  qed
qed


lemma export_gpt_header_at_end:
  assumes "pos f = length (content f)"
  shows "export_gpt_header f h
           = (if length (disk_uuid h) < 16 then Inl EXIT_FAILURE
              else Inr \<lparr>content = content f @ gpt_sector h, pos = pos f + 512\<rparr>)"
  using assms
  by (simp add: export_gpt_header_def foldl_fwrite_at_end sum_list_gpt_fields length_gpt_sector
      Let_def gpt_sector_def [symmetric] min_def)

lemma init_write_gpt_eq:
  fixes ds :: "64 word"
  defines "B \<equiv> (pad_disk_size ds - 512) div 512"
  assumes ok: "disk_size_ok ds" and m: "length mbr = 512" and u16: "16 \<le> length u"
    and s1: "0 \<le> sint (backup_array_location B)" and s2: "0 \<le> sint (B * 512)"
  shows "init_write_gpt mbr (Some u) ds
           = Inr \<lparr>content = mbr @ gpt_sector (primary_gpt_header u (pad_disk_size ds))
                     @ gap 16384 @ gap (unat B * 512 - 33792) @ gap 16384
                     @ gpt_sector (backup_gpt_header (primary_gpt_header u (pad_disk_size ds))),
                   pos = unat B * 512 + 512\<rparr>"
proof -
  let ?H1 = "primary_gpt_header u (pad_disk_size ds)"
  note bf = backup_lba_facts [OF ok s1 s2 B_def [THEN meta_eq_to_obj_eq]]
  have hb: "backup_lba ?H1 = B" by (simp add: primary_gpt_header_def B_def)
  have uu: "disk_uuid ?H1 = u" by (simp add: primary_gpt_header_def)
  have ub: "disk_uuid (backup_gpt_header ?H1) = u" by (simp add: backup_gpt_header_def uu)
  have l1: "length (gpt_sector ?H1) = 512" using u16 by (simp add: length_gpt_sector uu)
  have f0: "fwrite fopen_wb mbr = \<lparr>content = mbr, pos = 512\<rparr>"
    using m by (simp add: fwrite_at_end fopen_wb_def)
  have e1: "export_gpt_header \<lparr>content = mbr, pos = 512\<rparr> ?H1
      = Inr \<lparr>content = mbr @ gpt_sector ?H1, pos = 1024\<rparr>"
    using m u16 by (simp add: export_gpt_header_at_end uu)
  have z1: "zero_file_data \<lparr>content = mbr @ gpt_sector ?H1, pos = 1024\<rparr> 16384
      = \<lparr>content = mbr @ gpt_sector ?H1 @ gap 16384, pos = 17408\<rparr>"
    using m l1 by (simp add: zero_file_data_fwrite fwrite_at_end gap_def)
  have p1: "nat (sint (backup_array_location B)) = unat B * 512 - 16384"
  proof -
    have "sint (backup_array_location B) = int (unat (backup_array_location B))"
      by (rule sint_small [OF sint_nonneg_small [OF s1]])
    then show ?thesis by (simp only: bf(4) nat_int)
  qed
  have p2: "nat (sint (B * 512)) = unat B * 512"
  proof -
    have "sint (B * 512) = int (unat (B * 512))"
      by (rule sint_small [OF sint_nonneg_small [OF s2]])
    then show ?thesis by (simp only: bf(2) nat_int)
  qed
  have k1: "fseek g (sint (backup_array_location B)) = Some (g\<lparr>pos := unat B * 512 - 16384\<rparr>)"
    for g using s1 p1 by (simp add: fseek_def)
  have k2: "fseek g (sint (B * 512)) = Some (g\<lparr>pos := unat B * 512\<rparr>)"
    for g using s2 p2 by (simp add: fseek_def)
  have z2: "zero_file_data \<lparr>content = mbr @ gpt_sector ?H1 @ gap 16384,
        pos = unat B * 512 - 16384\<rparr> 16384
      = \<lparr>content = mbr @ gpt_sector ?H1 @ gap 16384 @ gap (unat B * 512 - 33792) @ gap 16384,
         pos = unat B * 512\<rparr>"
    using bf(1) m l1 by (simp add: zero_file_data_fwrite fwrite_past_end gap_def)
  have e2: "export_gpt_header \<lparr>content = mbr @ gpt_sector ?H1 @ gap 16384
        @ gap (unat B * 512 - 33792) @ gap 16384, pos = unat B * 512\<rparr> (backup_gpt_header ?H1)
      = Inr \<lparr>content = (mbr @ gpt_sector ?H1 @ gap 16384 @ gap (unat B * 512 - 33792)
        @ gap 16384) @ gpt_sector (backup_gpt_header ?H1), pos = unat B * 512 + 512\<rparr>"
    using bf(1) m l1 u16 by (simp add: export_gpt_header_at_end ub gap_def)
  have c: "GPT_PARTITION_HEADER_SIZE * GPT_PARTITION_HEADER_COUNT = 16384"
    by (simp add: GPT_PARTITION_HEADER_COUNT_def GPT_PARTITION_HEADER_SIZE_def)
  show ?thesis
    using ok m by (simp add: init_write_gpt_def Let_def hb c f0 e1 z1 k1 z2 k2 e2)
qed

lemma init_write_gpt_Inr:
  assumes "init_write_gpt mbr uuid ds = Inr f"
  defines "B \<equiv> (pad_disk_size ds - 512) div 512"
  shows "\<exists>u. uuid = Some u \<and> 16 \<le> length u \<and> length mbr = 512 \<and> disk_size_ok ds
           \<and> 0 \<le> sint (backup_array_location B) \<and> 0 \<le> sint (B * 512)"
proof -
  from assms(1) obtain u f1 f3 f5 where
    ok: "disk_size_ok ds" and u: "uuid = Some u" and m: "length mbr = 512" and
    e1: "export_gpt_header (fwrite fopen_wb mbr) (primary_gpt_header u (pad_disk_size ds)) = Inr f1" and
    k1: "fseek (zero_file_data f1 16384) (sint (backup_array_location B)) = Some f3" and
    k2: "fseek (zero_file_data f3 16384) (sint (B * 512)) = Some f5"
    by (auto simp: init_write_gpt_def Let_def B_def primary_gpt_header_def
        GPT_PARTITION_HEADER_COUNT_def GPT_PARTITION_HEADER_SIZE_def
        split: if_splits option.splits sum.splits)
  have f0: "fwrite fopen_wb mbr = \<lparr>content = mbr, pos = 512\<rparr>"
    using m by (simp add: fwrite_at_end fopen_wb_def)
  have "16 \<le> length u"
    using e1 m unfolding f0
    by (simp add: export_gpt_header_at_end primary_gpt_header_def split: if_splits)
  moreover have "0 \<le> sint (backup_array_location B)" and "0 \<le> sint (B * 512)"
    using k1 k2 by (simp_all add: fseek_Some)
  ultimately show ?thesis using ok u m by simp
qed

lemma le32_not_Nil: "le32 w \<noteq> []"
  using length_le32 [of w] by auto

lemma calculate_header_checksum_eq:
  assumes "0 \<le> loc" and "nat loc + 92 \<le> length (content f)"
  shows "calculate_header_checksum f loc
           = Inr \<lparr>content = pwrite (content f) (nat loc + 16)
                               (le32 (crc32 (region (content f) (nat loc) 92))),
                  pos = nat loc + 20\<rparr>"
proof -
  have rd: "fread (f\<lparr>pos := nat loc\<rparr>) 92
      = (region (content f) (nat loc) 92, f\<lparr>pos := nat loc + 92\<rparr>)"
    using assms(2) fread_region [of "f\<lparr>pos := nat loc\<rparr>" 92] by simp
  have len: "length (region (content f) (nat loc) 92) = 92"
    using assms(2) by (simp add: length_region)
  have n: "nat (loc + 16) = nat loc + 16" using assms(1) by simp
  show ?thesis
    using assms(1)
    by (simp add: calculate_header_checksum_def GPT_HEADER_SIZE_def fseek_def rd len Let_def
        fwrite_pwrite le32_not_Nil length_le32 n)
qed

lemma calculate_partition_headers_checksum_eq:
  fixes B :: "64 word"
  defines "b \<equiv> unat B"
  defines "L \<equiv> unat B * 512 - 16384"
  assumes len: "b * 512 + 92 \<le> length c" and bb: "66 \<le> b" and lt: "b < 2 ^ 54"
    and lba: "region c 544 8 = le64 B"
  shows "calculate_partition_headers_checksum \<lparr>content = c, pos = p\<rparr>
           = Inr \<lparr>content = pwrite (pwrite c 600 (le32 (crc32 (region c 1024 16384))))
                               (b * 512 + 88) (le32 (crc32 (region c L 16384))),
                  pos = b * 512 + 92\<rparr>"
proof -
  define a1 where "a1 = le32 (crc32 (region c 1024 16384))"
  define c1 where "c1 = pwrite c 600 a1"
  have la: "length a1 = 4" by (simp add: a1_def length_le32)
  have lc1: "length c1 = length c" using len bb la by (simp add: c1_def length_pwrite)
  have nb: "unat (B * 512) = b * 512"
    using lt by (subst unat_mult_lem [THEN iffD1]) (simp_all add: b_def)
  have nl: "unat (backup_array_location B) = L"
    using bb by (simp add: backup_array_location_eq unat_sub_cases nb L_def b_def)
  have n88: "unat (B * 512 + 88) = b * 512 + 88"
    using lt nb by (subst unat_add_lem [THEN iffD1]) simp_all
  have sl: "sint (backup_array_location B) = int L"
    using lt nl by (intro sint_small [THEN trans]) (simp_all add: L_def b_def)
  have s88: "sint (B * 512 + 88) = int (b * 512 + 88)"
    using lt n88 by (intro sint_small [THEN trans]) simp_all
  have r1: "fread \<lparr>content = c, pos = 1024\<rparr> 16384
      = (region c 1024 16384, \<lparr>content = c, pos = 17408\<rparr>)"
    using len bb fread_region [of "\<lparr>content = c, pos = 1024\<rparr>" 16384] by simp
  have l1: "length (region c 1024 16384) = 16384"
    using len bb by (simp add: length_region)
  have w1: "fwrite \<lparr>content = c, pos = 600\<rparr> a1 = \<lparr>content = c1, pos = 604\<rparr>"
    using la by (simp add: fwrite_pwrite c1_def a1_def le32_not_Nil)
  have r2: "fread \<lparr>content = c1, pos = 544\<rparr> 8 = (le64 B, \<lparr>content = c1, pos = 552\<rparr>)"
  proof -
    have "region c1 544 8 = region c 544 8"
      unfolding c1_def using len bb la by (intro region_pwrite_disjoint) simp_all
    then show ?thesis
      using len bb lc1 fread_region [of "\<lparr>content = c1, pos = 544\<rparr>" 8] by (simp add: lba)
  qed
  have r3: "fread \<lparr>content = c1, pos = L\<rparr> 16384
      = (region c L 16384, \<lparr>content = c1, pos = L + 16384\<rparr>)"
  proof -
    have "region c1 L 16384 = region c L 16384"
      unfolding c1_def using len bb la by (intro region_pwrite_disjoint) (simp_all add: L_def b_def)
    then show ?thesis
      using len bb lc1 fread_region [of "\<lparr>content = c1, pos = L\<rparr>" 16384]
      by (simp add: L_def b_def)
  qed
  have l3: "length (region c L 16384) = 16384"
    using len bb by (simp add: length_region L_def b_def)
  have nn: "nat (int b * 512 + 88) = b * 512 + 88"
    by (simp add: nat_add_distrib nat_mult_distrib)
  show ?thesis
    by (simp add: calculate_partition_headers_checksum_def GPT_PARTITION_HEADER_COUNT_def
        GPT_PARTITION_HEADER_SIZE_def fseek_def r1 l1 w1 [unfolded a1_def] r2 Let_def
        length_le64 of_le64_le64 sl s88 r3 l3 fwrite_pwrite le32_not_Nil length_le32
        c1_def [symmetric] a1_def [symmetric] nn)
qed


lemma region_pwrite_same: "p + length buf \<le> length c \<Longrightarrow> region (pwrite c p buf) p (length buf) = buf"
  using region_pwrite_inside [of p p buf "length buf" c] by (simp add: region_def)

lemma calculate_checksums_eq:
  fixes B :: "64 word"
  defines "b \<equiv> unat B"
  assumes len: "b * 512 + 92 \<le> length c" and bb: "66 \<le> b" and lt: "b < 2 ^ 54"
    and lba: "region c 544 8 = le64 B"
    and p1: "calculate_partition_headers_checksum \<lparr>content = c, pos = p\<rparr> = Inr f1"
  shows "calculate_checksums \<lparr>content = c, pos = p\<rparr>
           = Inr \<lparr>content = pwrite (pwrite (content f1) 528
                                  (le32 (crc32 (region (content f1) 512 92))))
                               (b * 512 + 16) (le32 (crc32 (region (content f1) (b * 512) 92))),
                  pos = b * 512 + 20\<rparr>"
    and "content f1 = pwrite (pwrite c 600 (le32 (crc32 (region c 1024 16384))))
                        (b * 512 + 88) (le32 (crc32 (region c (b * 512 - 16384) 16384)))"
proof -
  define a1 where "a1 = le32 (crc32 (region c 1024 16384))"
  define a2 where "a2 = le32 (crc32 (region c (b * 512 - 16384) 16384))"
  define c1 where "c1 = pwrite (pwrite c 600 a1) (b * 512 + 88) a2"
  define h1 where "h1 = le32 (crc32 (region c1 512 92))"
  define c2 where "c2 = pwrite c1 528 h1"
  have la: "length a1 = 4" "length a2 = 4" "length h1 = 4"
    by (simp_all add: a1_def a2_def h1_def length_le32)
  have f1: "f1 = \<lparr>content = c1, pos = b * 512 + 92\<rparr>"
    using p1 calculate_partition_headers_checksum_eq [of B c p] len bb lt lba
    by (simp add: b_def c1_def a1_def a2_def)
  then show "content f1 = pwrite (pwrite c 600 (le32 (crc32 (region c 1024 16384))))
                        (b * 512 + 88) (le32 (crc32 (region c (b * 512 - 16384) 16384)))"
    by (simp add: c1_def a1_def a2_def)
  have lc0: "length (pwrite c 600 a1) = length c"
    using len bb la by (simp add: length_pwrite)
  have lc1: "length c1 = length c"
    using len bb la lc0 by (simp add: c1_def length_pwrite)
  have lc2: "length c2 = length c"
    using len bb la lc1 by (simp add: c2_def length_pwrite)
  have hc1: "calculate_header_checksum f1 512 = Inr \<lparr>content = c2, pos = 532\<rparr>"
    using calculate_header_checksum_eq [of 512 f1] len bb lc1
    by (simp add: f1 c2_def h1_def)
  have "region c2 544 8 = region c1 544 8"
    unfolding c2_def using len bb la lc1 by (intro region_pwrite_disjoint) simp_all
  also have "\<dots> = region (pwrite c 600 a1) 544 8"
    unfolding c1_def using len bb la lc0 by (intro region_pwrite_disjoint) simp_all
  also have "\<dots> = region c 544 8"
    using len bb la by (intro region_pwrite_disjoint) simp_all
  finally have r544: "region c2 544 8 = le64 B" by (simp add: lba)
  have rd: "fread \<lparr>content = c2, pos = 544\<rparr> 8 = (le64 B, \<lparr>content = c2, pos = 552\<rparr>)"
    using len bb lc2 fread_region [of "\<lparr>content = c2, pos = 544\<rparr>" 8] by (simp add: r544)
  have nb: "unat (B * 512) = b * 512"
    using lt by (subst unat_mult_lem [THEN iffD1]) (simp_all add: b_def)
  have sb: "sint (B * 512) = int (b * 512)"
    using lt nb by (intro sint_small [THEN trans]) simp_all
  have r2: "region c2 (b * 512) 92 = region c1 (b * 512) 92"
    unfolding c2_def using len bb la lc1 by (intro region_pwrite_disjoint) simp_all
  have ni: "nat (int b * 512) = b * 512"
    by (simp add: nat_mult_distrib)
  have hc2: "calculate_header_checksum \<lparr>content = c2, pos = 552\<rparr> (int b * 512)
      = Inr \<lparr>content = pwrite c2 (b * 512 + 16) (le32 (crc32 (region c1 (b * 512) 92))),
             pos = b * 512 + 20\<rparr>"
    using calculate_header_checksum_eq [of "int b * 512" "\<lparr>content = c2, pos = 552\<rparr>"]
      len lc2 r2
    by (simp add: ni)
  show "calculate_checksums \<lparr>content = c, pos = p\<rparr>
           = Inr \<lparr>content = pwrite (pwrite (content f1) 528
                                  (le32 (crc32 (region (content f1) 512 92))))
                               (b * 512 + 16) (le32 (crc32 (region (content f1) (b * 512) 92))),
                  pos = b * 512 + 20\<rparr>"
    by (simp add: calculate_checksums_def p1 hc1 [unfolded f1] fseek_def
        rd [unfolded c2_def h1_def] length_le64
        of_le64_le64 sb hc2 [unfolded c2_def h1_def] f1 c2_def h1_def ni)
qed


lemma header_bytes_region: "header_bytes f loc = region (content f) loc 92"
  by (simp add: header_bytes_def region_def GPT_HEADER_SIZE_def)

lemma checksum_pass_headers:
  fixes B :: "64 word"
  defines "b \<equiv> unat B"
  assumes len: "b * 512 + 92 \<le> length c" and bb: "66 \<le> b" and lt: "b < 2 ^ 54"
    and lba: "region c 544 8 = le64 B"
  shows "\<exists>f1 f. calculate_partition_headers_checksum \<lparr>content = c, pos = p\<rparr> = Inr f1
           \<and> calculate_checksums \<lparr>content = c, pos = p\<rparr> = Inr f
           \<and> length (content f) = length c
           \<and> header_bytes f1 512
               = take 88 (region c 512 92) @ le32 (crc32 (region c 1024 16384))
           \<and> header_bytes f1 (b * 512)
               = take 88 (region c (b * 512) 92)
                   @ le32 (crc32 (region c (b * 512 - 16384) 16384))
           \<and> header_bytes f 512
               = take 16 (header_bytes f1 512) @ le32 (crc32 (header_bytes f1 512))
                   @ drop 20 (header_bytes f1 512)
           \<and> header_bytes f (b * 512)
               = take 16 (header_bytes f1 (b * 512)) @ le32 (crc32 (header_bytes f1 (b * 512)))
                   @ drop 20 (header_bytes f1 (b * 512))
           \<and> region (content f) (b * 512 - 16384) 16384 = region c (b * 512 - 16384) 16384"
proof -
  define a1 where "a1 = le32 (crc32 (region c 1024 16384))"
  define a2 where "a2 = le32 (crc32 (region c (b * 512 - 16384) 16384))"
  define c0 where "c0 = pwrite c 600 a1"
  define c1 where "c1 = pwrite c0 (b * 512 + 88) a2"
  define h1 where "h1 = le32 (crc32 (region c1 512 92))"
  define h2 where "h2 = le32 (crc32 (region c1 (b * 512) 92))"
  define c2 where "c2 = pwrite c1 528 h1"
  define c3 where "c3 = pwrite c2 (b * 512 + 16) h2"
  have la: "length a1 = 4" "length a2 = 4" "length h1 = 4" "length h2 = 4"
    by (simp_all add: a1_def a2_def h1_def h2_def length_le32)
  have lc0: "length c0 = length c" using len bb la by (simp add: c0_def length_pwrite)
  have lc1: "length c1 = length c" using len bb la lc0 by (simp add: c1_def length_pwrite)
  have lc2: "length c2 = length c" using len bb la lc1 by (simp add: c2_def length_pwrite)
  have lc3: "length c3 = length c" using len bb la lc2 by (simp add: c3_def length_pwrite)
  have p1: "calculate_partition_headers_checksum \<lparr>content = c, pos = p\<rparr>
      = Inr \<lparr>content = c1, pos = b * 512 + 92\<rparr>"
    using calculate_partition_headers_checksum_eq [of B c p] len bb lt lba
    by (simp add: b_def c1_def c0_def a1_def a2_def)
  have p2: "calculate_checksums \<lparr>content = c, pos = p\<rparr> = Inr \<lparr>content = c3, pos = b * 512 + 20\<rparr>"
    using calculate_checksums_eq(1) [of B c p, OF _ _ _ _ p1 [unfolded b_def]] len bb lt lba
    by (simp add: b_def c3_def c2_def h1_def h2_def)
  have r1: "region c1 512 92 = take 88 (region c 512 92) @ a1"
  proof -
    have "region c1 512 92 = region c0 512 92"
      unfolding c1_def using len bb la lc0 by (intro region_pwrite_disjoint) simp_all
    also have "\<dots> = take (600 - 512) (region c 512 92) @ a1
        @ drop (600 - 512 + length a1) (region c 512 92)"
      unfolding c0_def using len bb la by (intro region_pwrite_inside) simp_all
    finally show ?thesis using len bb la by (simp add: length_region)
  qed
  have r2: "region c1 (b * 512) 92 = take 88 (region c (b * 512) 92) @ a2"
  proof -
    have "region c1 (b * 512) 92 = take (b * 512 + 88 - b * 512) (region c0 (b * 512) 92) @ a2
        @ drop (b * 512 + 88 - b * 512 + length a2) (region c0 (b * 512) 92)"
      unfolding c1_def using len bb la lc0 by (intro region_pwrite_inside) simp_all
    moreover have "region c0 (b * 512) 92 = region c (b * 512) 92"
      unfolding c0_def using len bb la by (intro region_pwrite_disjoint) simp_all
    ultimately show ?thesis using len bb la by (simp add: length_region)
  qed
  have r3: "region c3 512 92 = take 16 (region c1 512 92) @ h1 @ drop 20 (region c1 512 92)"
  proof -
    have "region c3 512 92 = region c2 512 92"
      unfolding c3_def using len bb la lc2 by (intro region_pwrite_disjoint) simp_all
    also have "\<dots> = take (528 - 512) (region c1 512 92) @ h1
        @ drop (528 - 512 + length h1) (region c1 512 92)"
      unfolding c2_def using len bb la lc1 by (intro region_pwrite_inside) simp_all
    finally show ?thesis using la by simp
  qed
  have r4: "region c3 (b * 512) 92
      = take 16 (region c1 (b * 512) 92) @ h2 @ drop 20 (region c1 (b * 512) 92)"
  proof -
    have "region c3 (b * 512) 92 = take (b * 512 + 16 - b * 512) (region c2 (b * 512) 92) @ h2
        @ drop (b * 512 + 16 - b * 512 + length h2) (region c2 (b * 512) 92)"
      unfolding c3_def using len bb la lc2 by (intro region_pwrite_inside) simp_all
    moreover have "region c2 (b * 512) 92 = region c1 (b * 512) 92"
      unfolding c2_def using len bb la lc1 by (intro region_pwrite_disjoint) simp_all
    ultimately show ?thesis using la by simp
  qed
  have r5: "region c3 (b * 512 - 16384) 16384 = region c (b * 512 - 16384) 16384"
  proof -
    have "region c3 (b * 512 - 16384) 16384 = region c2 (b * 512 - 16384) 16384"
      unfolding c3_def using len bb la lc2 by (intro region_pwrite_disjoint) simp_all
    also have "\<dots> = region c1 (b * 512 - 16384) 16384"
      unfolding c2_def using len bb la lc1 by (intro region_pwrite_disjoint) simp_all
    also have "\<dots> = region c0 (b * 512 - 16384) 16384"
      unfolding c1_def using len bb la lc0 by (intro region_pwrite_disjoint) simp_all
    also have "\<dots> = region c (b * 512 - 16384) 16384"
      unfolding c0_def using len bb la by (intro region_pwrite_disjoint) simp_all
    finally show ?thesis .
  qed
  show ?thesis
    apply (rule exI [of _ "\<lparr>content = c1, pos = b * 512 + 92\<rparr>"])
    apply (rule exI [of _ "\<lparr>content = c3, pos = b * 512 + 20\<rparr>"])
    using p1 p2 lc3 r1 r2 r3 r4 r5
    by (simp add: header_bytes_region a1_def a2_def h1_def h2_def)
qed


lemma region_append1: "q + n \<le> length xs \<Longrightarrow> region (xs @ ys) q n = region xs q n"
  by (simp add: region_def)

lemma region_append2: "length xs \<le> q \<Longrightarrow> region (xs @ ys) q n = region ys (q - length xs) n"
  by (simp add: region_def)

lemma region_gap: "q + n \<le> m \<Longrightarrow> region (gap m) q n = gap n"
  by (simp add: region_def gap_def min_def)

lemma length_gap: "length (gap n) = n"
  by (simp add: gap_def)

lemma init_regions:
  assumes lm: "length mbr = 512" and l1: "length S1 = 512" and l2: "length S2 = 512"
    and bb: "66 \<le> b"
  defines "c \<equiv> mbr @ S1 @ gap 16384 @ gap (b * 512 - 33792) @ gap 16384 @ S2"
  shows "length c = b * 512 + 512"
    and "region c 512 92 = take 92 S1"
    and "region c 544 8 = take 8 (drop 32 S1)"
    and "region c 1024 16384 = gap 16384"
    and "region c (b * 512 - 16384) 16384 = gap 16384"
    and "region c (b * 512) 92 = take 92 S2"
proof -
  show "length c = b * 512 + 512"
    using lm l1 l2 bb by (simp add: c_def length_gap)
  have "region c 512 92 = region (S1 @ gap 16384 @ gap (b * 512 - 33792) @ gap 16384 @ S2) 0 92"
    unfolding c_def using lm by (subst region_append2) simp_all
  then show "region c 512 92 = take 92 S1"
    using l1 by (simp add: region_append1) (simp add: region_def)
  have "region c 544 8 = region (S1 @ gap 16384 @ gap (b * 512 - 33792) @ gap 16384 @ S2) 32 8"
    unfolding c_def using lm by (subst region_append2) simp_all
  then show "region c 544 8 = take 8 (drop 32 S1)"
    using l1 by (simp add: region_append1) (simp add: region_def)
  have "region c 1024 16384
      = region (S1 @ gap 16384 @ gap (b * 512 - 33792) @ gap 16384 @ S2) 512 16384"
    unfolding c_def using lm by (subst region_append2) simp_all
  also have "\<dots> = region (gap 16384 @ gap (b * 512 - 33792) @ gap 16384 @ S2) 0 16384"
    using l1 by (subst region_append2) simp_all
  also have "\<dots> = gap 16384"
    by (simp add: region_append1 length_gap region_gap)
  finally show "region c 1024 16384 = gap 16384" .
  have s1: "region c q n = region (gap 16384 @ S2) (q - (b * 512 - 16384)) n"
    if "b * 512 - 16384 \<le> q" for q n
  proof -
    have "region c q n = region (S1 @ gap 16384 @ gap (b * 512 - 33792) @ gap 16384 @ S2)
        (q - 512) n"
      unfolding c_def using lm that bb by (subst region_append2) simp_all
    also have "\<dots> = region (gap 16384 @ gap (b * 512 - 33792) @ gap 16384 @ S2) (q - 1024) n"
      using l1 that bb by (subst region_append2) simp_all
    also have "\<dots> = region (gap (b * 512 - 33792) @ gap 16384 @ S2) (q - 17408) n"
      using that bb by (subst region_append2) (simp_all add: length_gap)
    also have "\<dots> = region (gap 16384 @ S2) (q - 17408 - (b * 512 - 33792)) n"
      using that bb by (subst region_append2) (simp_all add: length_gap)
    also have "q - 17408 - (b * 512 - 33792) = q - (b * 512 - 16384)"
      using that bb by simp
    finally show ?thesis .
  qed
  show "region c (b * 512 - 16384) 16384 = gap 16384"
    using s1 [of "b * 512 - 16384" 16384]
    by (simp add: region_append1 length_gap region_gap)
  have "region c (b * 512) 92 = region (gap 16384 @ S2) 16384 92"
    using s1 [of "b * 512" 92] bb by simp
  then show "region c (b * 512) 92 = take 92 S2"
    by (simp add: region_append2 length_gap) (simp add: region_def)
qed

lemma header_patched_validates:
  assumes "length R = 92" and "take 4 (drop 16 R) = [0, 0, 0, 0]"
  defines "hb \<equiv> take 16 R @ le32 (crc32 R) @ drop 20 R"
  shows "length hb = 92"
    and "take 16 hb @ [0, 0, 0, 0] @ drop 20 hb = R"
    and "take 4 (drop 16 hb) = le32 (crc32 R)"
proof -
  show "length hb = 92" using assms(1) by (simp add: hb_def length_le32)
  show "take 4 (drop 16 hb) = le32 (crc32 R)"
    using assms(1) by (simp add: hb_def length_le32)
  have a: "take 16 hb = take 16 R" using assms(1) by (simp add: hb_def)
  have b: "drop 20 hb = drop 20 R" using assms(1) by (simp add: hb_def length_le32)
  have "R = take 16 R @ drop 16 R" by simp
  also have "drop 16 R = take 4 (drop 16 R) @ drop 4 (drop 16 R)"
    by (rule append_take_drop_id [symmetric])
  also have "\<dots> = [0, 0, 0, 0] @ drop 20 R" by (simp add: assms(2))
  finally show "take 16 hb @ [0, 0, 0, 0] @ drop 20 hb = R"
    unfolding a b by simp
qed


lemma FILE_eq: "(f :: FILE) = \<lparr>content = content f, pos = pos f\<rparr>"
  by simp

lemma init_pass_facts:
  fixes ds :: "64 word"
  defines "B \<equiv> init_backup_lba ds"
  assumes ok: "disk_size_ok ds" and m: "length mbr = 512" and u16: "16 \<le> length u"
    and s1: "0 \<le> sint (backup_array_location B)" and s2: "0 \<le> sint (B * 512)"
  shows "\<exists>f0 f1 f.
           init_write_gpt mbr (Some u) ds = Inr f0
           \<and> calculate_partition_headers_checksum f0 = Inr f1
           \<and> init_gpt_disk mbr (Some u) ds = Inr f
           \<and> 191 \<le> unat B \<and> unat (B * 512) = unat B * 512
           \<and> unat (backup_array_location B) = unat B * 512 - 16384
           \<and> length (content f) = unat B * 512 + 512
           \<and> region (content f0) 1024 16384 = gap 16384
           \<and> region (content f0) (unat B * 512 - 16384) 16384 = gap 16384
           \<and> region (content f) (unat B * 512 - 16384) 16384 = gap 16384
           \<and> header_bytes f1 512
               = take 88 (gpt_sector (primary_gpt_header u (pad_disk_size ds)))
                   @ le32 (crc32 (gap 16384))
           \<and> header_bytes f1 (unat B * 512)
               = take 88 (gpt_sector (backup_gpt_header (primary_gpt_header u (pad_disk_size ds))))
                   @ le32 (crc32 (gap 16384))
           \<and> header_bytes f 512
               = take 16 (header_bytes f1 512) @ le32 (crc32 (header_bytes f1 512))
                   @ drop 20 (header_bytes f1 512)
           \<and> header_bytes f (unat B * 512)
               = take 16 (header_bytes f1 (unat B * 512))
                   @ le32 (crc32 (header_bytes f1 (unat B * 512)))
                   @ drop 20 (header_bytes f1 (unat B * 512))"
proof -
  let ?S1 = "gpt_sector (primary_gpt_header u (pad_disk_size ds))"
  let ?S2 = "gpt_sector (backup_gpt_header (primary_gpt_header u (pad_disk_size ds)))"
  let ?c = "mbr @ ?S1 @ gap 16384 @ gap (unat B * 512 - 33792) @ gap 16384 @ ?S2"
  let ?f0 = "\<lparr>content = ?c, pos = unat B * 512 + 512\<rparr>"
  note bf = backup_lba_facts [OF ok s1 s2 B_def [unfolded init_backup_lba_def, THEN meta_eq_to_obj_eq]]
  have w: "init_write_gpt mbr (Some u) ds = Inr ?f0"
    using init_write_gpt_eq [OF ok m u16 s1 [unfolded B_def init_backup_lba_def]
        s2 [unfolded B_def init_backup_lba_def]]
    by (simp add: B_def init_backup_lba_def)
  have l1: "length ?S1 = 512" and l2: "length ?S2 = 512"
    using u16 by (simp_all add: length_gpt_sector primary_gpt_header_def backup_gpt_header_def)
  have bb: "66 \<le> unat B" using bf(1) by simp
  note ir = init_regions [OF m l1 l2 bb]
  have lt: "unat B < 2 ^ 54" using bf(3) by simp
  have lba: "region ?c 544 8 = le64 B"
    using ir(3) gpt_sector_fields(2) [of "primary_gpt_header u (pad_disk_size ds)"] u16
    by (simp add: primary_gpt_header_def B_def init_backup_lba_def)
  have len: "unat B * 512 + 92 \<le> length ?c" using ir(1) by simp
  from checksum_pass_headers [OF len bb lt lba, of "unat B * 512 + 512"]
  obtain f1 f where
    p1: "calculate_partition_headers_checksum ?f0 = Inr f1" and
    p2: "calculate_checksums ?f0 = Inr f" and
    q: "length (content f) = length ?c"
      "header_bytes f1 512 = take 88 (region ?c 512 92) @ le32 (crc32 (region ?c 1024 16384))"
      "header_bytes f1 (unat B * 512) = take 88 (region ?c (unat B * 512) 92)
          @ le32 (crc32 (region ?c (unat B * 512 - 16384) 16384))"
      "header_bytes f 512 = take 16 (header_bytes f1 512) @ le32 (crc32 (header_bytes f1 512))
          @ drop 20 (header_bytes f1 512)"
      "header_bytes f (unat B * 512) = take 16 (header_bytes f1 (unat B * 512))
          @ le32 (crc32 (header_bytes f1 (unat B * 512)))
          @ drop 20 (header_bytes f1 (unat B * 512))"
      "region (content f) (unat B * 512 - 16384) 16384 = region ?c (unat B * 512 - 16384) 16384"
    by blast
  have i: "init_gpt_disk mbr (Some u) ds = Inr f"
    by (simp add: init_gpt_disk_def w p2)
  have t1: "take 88 (take 92 ?S1) = take 88 ?S1" and t2: "take 88 (take 92 ?S2) = take 88 ?S2"
    by simp_all
  show ?thesis
    apply (rule exI [of _ ?f0])
    apply (rule exI [of _ f1])
    apply (rule exI [of _ f])
    using w p1 i bf(1,2,4) q ir t1 t2
    by simp
qed

lemma init_gpt_disk_Inr:
  assumes "init_gpt_disk mbr uuid ds = Inr f"
  shows "\<exists>u. uuid = Some u \<and> 16 \<le> length u \<and> length mbr = 512 \<and> disk_size_ok ds
           \<and> 0 \<le> sint (backup_array_location (init_backup_lba ds))
           \<and> 0 \<le> sint (init_backup_lba ds * 512)"
proof -
  from assms obtain f0 where "init_write_gpt mbr uuid ds = Inr f0"
    by (auto simp: init_gpt_disk_def split: sum.splits)
  from init_write_gpt_Inr [OF this] show ?thesis
    by (simp add: init_backup_lba_def)
qed

lemma pad_disk_size_bounds:
  assumes "unat ds \<le> 2 ^ 63"
  shows "unat ds \<le> unat (pad_disk_size ds) \<and> unat (pad_disk_size ds) \<le> unat ds + 511"
proof (cases "ds mod 512 = 0")
  case True
  then show ?thesis by (simp add: pad_disk_size_def)
next
  case False
  have m: "unat (ds mod 512) = unat ds mod 512" by (simp add: unat_mod)
  have nz: "unat (ds mod 512) \<noteq> 0" using False by (simp add: unat_eq_zero)
  have "unat (ds mod 512) < 512" using m by simp
  then have k: "unat (512 - ds mod 512) = 512 - unat (ds mod 512)"
    by (subst unat_sub) (simp_all add: word_le_nat_alt)
  then have k': "unat (512 - ds mod 512) \<le> 511" using nz by simp
  have "unat (ds + (512 - ds mod 512)) = unat ds + unat (512 - ds mod 512)"
    using assms k' by (subst unat_add_lem [THEN iffD1]) simp_all
  then show ?thesis using k' False by (simp add: pad_disk_size_def)
qed

lemma init_gpt_disk_ok:
  assumes ok: "disk_size_ok ds" and small: "unat ds \<le> 2 ^ 63"
    and m: "length mbr = 512" and u16: "16 \<le> length u"
  shows "\<exists>f. init_gpt_disk mbr (Some u) ds = Inr f"
proof -
  define B where "B = init_backup_lba ds"
  define X where "X = pad_disk_size ds - 512"
  have d: "98488 \<le> unat ds"
    using ok by (simp add: disk_size_ok_def minimum_size_def GPT_HEADER_SIZE_def
        GPT_PARTITION_HEADER_COUNT_def GPT_PARTITION_HEADER_SIZE_def not_less word_le_nat_alt)
  note pb = pad_disk_size_bounds [OF small]
  have uX: "unat X = unat (pad_disk_size ds) - 512"
    using pb d by (simp add: X_def unat_sub_cases)
  have uB: "unat B = unat X div 512"
    by (simp add: B_def init_backup_lba_def X_def unat_div)
  have le: "unat B * 512 \<le> unat X" by (simp add: uB)
  have small': "unat ds \<le> 9223372036854775808" using small by simp
  have lt0: "unat B * 512 + 1 \<le> 9223372036854775808"
    using le uX pb [THEN conjunct1] pb [THEN conjunct2] small' d by linarith
  have lt: "unat B * 512 < 2 ^ 63" using lt0 by simp
  have "97976 \<le> unat X"
    using uX pb [THEN conjunct1] d by linarith
  then have "97976 div 512 \<le> unat X div 512"
    by (rule div_le_mono)
  then have bb: "191 \<le> unat B" by (simp add: uB)
  have nb: "unat (B * 512) = unat B * 512"
    using lt by (subst unat_mult_lem [THEN iffD1]) simp_all
  have s2: "0 \<le> sint (B * 512)"
    using lt nb by (subst sint_small) simp_all
  have "unat (backup_array_location B) = unat B * 512 - 16384"
    using bb by (simp add: backup_array_location_eq unat_sub_cases nb)
  then have s1: "0 \<le> sint (backup_array_location B)"
    using lt by (subst sint_small) simp_all
  from init_pass_facts [OF ok m u16 s1 [unfolded B_def] s2 [unfolded B_def]]
  show ?thesis by blast
qed


lemma header_after_arrays:
  assumes "length S = 512" and "length a = 4"
  shows "length (take 88 S @ a) = 92"
    and "take 4 (drop 16 (take 88 S @ a)) = take 4 (drop 16 S)"
    and "take 8 (drop 72 (take 88 S @ a)) = take 8 (drop 72 S)"
    and "take 4 (drop 88 (take 88 S @ a)) = a"
  using assms by (simp_all add: drop_take)

lemma header_patched_fields:
  assumes "length R = 92"
  shows "take 8 (drop 72 (take 16 R @ le32 (crc32 R) @ drop 20 R)) = take 8 (drop 72 R)"
    and "take 4 (drop 88 (take 16 R @ le32 (crc32 R) @ drop 20 R)) = take 4 (drop 88 R)"
  using assms by (simp_all add: length_le32)

lemma partition_array_region: "partition_array f loc = region (content f) loc 16384"
  by (simp add: partition_array_def region_def GPT_PARTITION_HEADER_COUNT_def
      GPT_PARTITION_HEADER_SIZE_def)

lemma backup_array_lba_word:
  fixes B :: "64 word"
  assumes bb: "191 \<le> unat B" and nb: "unat (B * 512) = unat B * 512"
  shows "(B * 512 - 16384 - 512) div 512 * 512 + 512 = B * 512 - 16384"
proof -
  define V where "V = (B * 512 - 16896) div 512"
  have eq: "B * 512 - 16384 - 512 = B * 512 - 16896" by simp
  have a: "unat (B * 512 - 16384) = unat B * 512 - 16384"
    using bb by (simp add: unat_sub_cases nb)
  have b: "unat (B * 512 - 16896) = unat B * 512 - 16896"
    using bb by (simp add: unat_sub_cases nb)
  have "unat B * 512 - 16896 = (unat B - 33) * 512" using bb by simp
  then have c: "unat V = unat B - 33"
    by (simp add: V_def unat_div b)
  have lt: "unat B * 512 < 2 ^ 64" using unat_lt64 [of "B * 512"] nb by simp
  have d: "unat (V * 512) = (unat B - 33) * 512"
    using lt c by (subst unat_mult_lem [THEN iffD1]) simp_all
  have e: "unat (V * 512 + 512) = (unat B - 33) * 512 + 512"
    using lt d bb by (subst unat_add_lem [THEN iffD1]) simp_all
  have "V * 512 + 512 = B * 512 - 16384"
    using bb by (intro word_unat_eq_iff [THEN iffD2]) (simp add: e a)
  then show ?thesis unfolding eq V_def .
qed

subsection \<open>The claims about \<^verbatim>\<open>pure64_init\<close>\<close>

text \<open>
  C3. When \<open>init_gpt_disk\<close> succeeds, the primary header, at offset 512, and the backup
  header, at \<open>backup_lba * 512\<close>, both validate on the disk it leaves: the CRC32 of the
  92 header bytes with the four bytes at offset 16 taken as zero is the checksum stored
  at offset 16. The pass patches the array checksums first: the checksum pass starts
  from the file \<open>written\<close>, \<^verbatim>\<open>calculate_partition_headers_checksum\<close> turns it into
  \<open>patched\<close>, in which both headers hold the CRC32 of their partition-entry array at
  offset 88, and the two header checksums of the final disk are the CRC32 of the headers
  of \<open>patched\<close>.
\<close>

theorem gpt_headers_validate:
  assumes "init_gpt_disk mbr_data uuid disk_size = Inr file"
  shows "header_validates file 512
         \<and> header_validates file (unat (init_backup_lba disk_size * 512))
         \<and> (\<exists>written patched.
               init_write_gpt mbr_data uuid disk_size = Inr written
               \<and> calculate_partition_headers_checksum written = Inr patched
               \<and> stored_array_checksum patched 512 = crc32 (partition_array written 1024)
               \<and> stored_array_checksum patched (unat (init_backup_lba disk_size * 512))
                   = crc32 (partition_array written
                       (unat (backup_array_location (init_backup_lba disk_size))))
               \<and> stored_header_checksum file 512 = crc32 (header_bytes patched 512)
               \<and> stored_header_checksum file (unat (init_backup_lba disk_size * 512))
                   = crc32 (header_bytes patched (unat (init_backup_lba disk_size * 512))))"
proof -
  define B where "B = init_backup_lba disk_size"
  from init_gpt_disk_Inr [OF assms] obtain u where
    u: "uuid = Some u" and u16: "16 \<le> length u" and m: "length mbr_data = 512" and
    ok: "disk_size_ok disk_size" and
    s1: "0 \<le> sint (backup_array_location B)" and s2: "0 \<le> sint (B * 512)"
    by (auto simp: B_def)
  let ?S1 = "gpt_sector (primary_gpt_header u (pad_disk_size disk_size))"
  let ?S2 = "gpt_sector (backup_gpt_header (primary_gpt_header u (pad_disk_size disk_size)))"
  let ?a = "le32 (crc32 (gap 16384))"
  from init_pass_facts [OF ok m u16 s1 [unfolded B_def] s2 [unfolded B_def]]
  obtain f0 f1 f where
    w: "init_write_gpt mbr_data (Some u) disk_size = Inr f0" and
    p: "calculate_partition_headers_checksum f0 = Inr f1" and
    i: "init_gpt_disk mbr_data (Some u) disk_size = Inr f" and
    nb: "unat (B * 512) = unat B * 512" and
    nl: "unat (backup_array_location B) = unat B * 512 - 16384" and
    z1: "region (content f0) 1024 16384 = gap 16384" and
    z2: "region (content f0) (unat B * 512 - 16384) 16384 = gap 16384" and
    h1: "header_bytes f1 512 = take 88 ?S1 @ ?a" and
    h2: "header_bytes f1 (unat B * 512) = take 88 ?S2 @ ?a" and
    g1: "header_bytes f 512 = take 16 (header_bytes f1 512) @ le32 (crc32 (header_bytes f1 512))
          @ drop 20 (header_bytes f1 512)" and
    g2: "header_bytes f (unat B * 512) = take 16 (header_bytes f1 (unat B * 512))
          @ le32 (crc32 (header_bytes f1 (unat B * 512)))
          @ drop 20 (header_bytes f1 (unat B * 512))"
    unfolding B_def [symmetric] by blast
  have ff: "f = file" using i assms u by simp
  have l1: "length ?S1 = 512" and l2: "length ?S2 = 512"
    using u16 by (simp_all add: length_gpt_sector primary_gpt_header_def backup_gpt_header_def)
  have zf1: "take 4 (drop 16 ?S1) = [0, 0, 0, 0]" and zf2: "take 4 (drop 16 ?S2) = [0, 0, 0, 0]"
    using u16 by (simp_all add: gpt_sector_fields primary_gpt_header_def backup_gpt_header_def)
  note a1 = header_after_arrays [OF l1 length_le32 [of "crc32 (gap 16384)"]]
  note a2 = header_after_arrays [OF l2 length_le32 [of "crc32 (gap 16384)"]]
  have R1: "length (header_bytes f1 512) = 92"
    "take 4 (drop 16 (header_bytes f1 512)) = [0, 0, 0, 0]"
    using a1 zf1 by (simp_all add: h1)
  have R2: "length (header_bytes f1 (unat B * 512)) = 92"
    "take 4 (drop 16 (header_bytes f1 (unat B * 512))) = [0, 0, 0, 0]"
    using a2 zf2 by (simp_all add: h2)
  note v1 = header_patched_validates [OF R1]
  note v2 = header_patched_validates [OF R2]
  have hv1: "header_validates f 512"
    using v1 by (simp add: header_validates_def stored_header_checksum_def g1 GPT_HEADER_SIZE_def
        of_le32_le32)
  have hv2: "header_validates f (unat B * 512)"
    using v2 by (simp add: header_validates_def stored_header_checksum_def g2 GPT_HEADER_SIZE_def
        of_le32_le32)
  have c1: "stored_array_checksum f1 512 = crc32 (partition_array f0 1024)"
    using a1(4) by (simp add: stored_array_checksum_def h1 partition_array_region z1 of_le32_le32)
  have c2: "stored_array_checksum f1 (unat B * 512)
      = crc32 (partition_array f0 (unat B * 512 - 16384))"
    using a2(4) by (simp add: stored_array_checksum_def h2 partition_array_region z2 of_le32_le32)
  have k1: "stored_header_checksum f 512 = crc32 (header_bytes f1 512)"
    using v1(3) by (simp add: stored_header_checksum_def g1 of_le32_le32)
  have k2: "stored_header_checksum f (unat B * 512) = crc32 (header_bytes f1 (unat B * 512))"
    using v2(3) by (simp add: stored_header_checksum_def g2 of_le32_le32)
  have "\<exists>written patched.
               init_write_gpt mbr_data uuid disk_size = Inr written
               \<and> calculate_partition_headers_checksum written = Inr patched
               \<and> stored_array_checksum patched 512 = crc32 (partition_array written 1024)
               \<and> stored_array_checksum patched (unat (B * 512))
                   = crc32 (partition_array written (unat (backup_array_location B)))
               \<and> stored_header_checksum file 512 = crc32 (header_bytes patched 512)
               \<and> stored_header_checksum file (unat (B * 512))
                   = crc32 (header_bytes patched (unat (B * 512)))"
    using w p c1 c2 k1 k2 unfolding ff u nb nl
    by (intro exI [of _ f0] exI [of _ f1] conjI)
  moreover have "header_validates file (unat (B * 512))"
    using hv2 by (simp add: ff nb)
  moreover have "header_validates file 512"
    using hv1 by (simp add: ff)
  ultimately show ?thesis
    unfolding B_def [symmetric] by simp
qed


theorem gpt_headers_validate_witness:
  "\<exists>file. init_gpt_disk (replicate 512 0x90) (Some (replicate 16 0x11)) (1 * 1024 * 1024) = Inr file
      \<and> header_validates file 512
      \<and> header_validates file 1048064"
proof -
  have "disk_size_ok (1 * 1024 * 1024)"
    by (simp add: disk_size_ok_def minimum_size_def GPT_HEADER_SIZE_def
        GPT_PARTITION_HEADER_COUNT_def GPT_PARTITION_HEADER_SIZE_def)
  then obtain image where
    i: "init_gpt_disk (replicate 512 0x90) (Some (replicate 16 0x11)) (1 * 1024 * 1024) = Inr image"
    using init_gpt_disk_ok [of "1 * 1024 * 1024" "replicate 512 0x90" "replicate 16 0x11"]
    by auto
  have "unat (init_backup_lba (1 * 1024 * 1024) * 512) = 1048064"
    by (simp add: init_backup_lba_def pad_disk_size_def)
  then have "header_validates image 512 \<and> header_validates image 1048064"
    using gpt_headers_validate [OF i] by simp
  with i show ?thesis by blast
qed

text \<open>
  C9. On the disk that \<open>init_gpt_disk\<close> leaves, the partition-array LBA of the primary
  header is 2, and that of the backup header is \<open>(backup_lba * 512 - 128 * 128 - 512) / 512\<close>.
  One sector further, at \<open>backup_lba * 512 - 128 * 128\<close>, is where the 128 * 128 zero bytes
  of the backup array are, and the array checksum of the backup header is the CRC32 of
  the bytes there.
\<close>

theorem backup_array_lba_field:
  assumes "init_gpt_disk mbr_data uuid disk_size = Inr file"
  shows "stored_array_lba file 512 = 2
         \<and> stored_array_lba file (unat (init_backup_lba disk_size * 512))
             = (init_backup_lba disk_size * 512 - 128 * 128 - 512) div 512
         \<and> stored_array_lba file (unat (init_backup_lba disk_size * 512)) * 512 + 512
             = backup_array_location (init_backup_lba disk_size)
         \<and> backup_array_location (init_backup_lba disk_size)
             = init_backup_lba disk_size * 512 - 128 * 128
         \<and> partition_array file (unat (backup_array_location (init_backup_lba disk_size)))
             = replicate (128 * 128) 0
         \<and> stored_array_checksum file (unat (init_backup_lba disk_size * 512))
             = crc32 (partition_array file
                 (unat (backup_array_location (init_backup_lba disk_size))))"
proof -
  define B where "B = init_backup_lba disk_size"
  from init_gpt_disk_Inr [OF assms] obtain u where
    u: "uuid = Some u" and u16: "16 \<le> length u" and m: "length mbr_data = 512" and
    ok: "disk_size_ok disk_size" and
    s1: "0 \<le> sint (backup_array_location B)" and s2: "0 \<le> sint (B * 512)"
    by (auto simp: B_def)
  let ?H1 = "primary_gpt_header u (pad_disk_size disk_size)"
  let ?S1 = "gpt_sector ?H1"
  let ?S2 = "gpt_sector (backup_gpt_header ?H1)"
  let ?a = "le32 (crc32 (gap 16384))"
  from init_pass_facts [OF ok m u16 s1 [unfolded B_def] s2 [unfolded B_def]]
  obtain f0 f1 f where
    i: "init_gpt_disk mbr_data (Some u) disk_size = Inr f" and
    bb: "191 \<le> unat B" and
    nb: "unat (B * 512) = unat B * 512" and
    nl: "unat (backup_array_location B) = unat B * 512 - 16384" and
    z: "region (content f) (unat B * 512 - 16384) 16384 = gap 16384" and
    h1: "header_bytes f1 512 = take 88 ?S1 @ ?a" and
    h2: "header_bytes f1 (unat B * 512) = take 88 ?S2 @ ?a" and
    g1: "header_bytes f 512 = take 16 (header_bytes f1 512) @ le32 (crc32 (header_bytes f1 512))
          @ drop 20 (header_bytes f1 512)" and
    g2: "header_bytes f (unat B * 512) = take 16 (header_bytes f1 (unat B * 512))
          @ le32 (crc32 (header_bytes f1 (unat B * 512)))
          @ drop 20 (header_bytes f1 (unat B * 512))"
    unfolding B_def [symmetric] by blast
  have ff: "f = file" using i assms u by simp
  have l1: "length ?S1 = 512" and l2: "length ?S2 = 512"
    using u16 by (simp_all add: length_gpt_sector primary_gpt_header_def backup_gpt_header_def)
  note a1 = header_after_arrays [OF l1 length_le32 [of "crc32 (gap 16384)"]]
  note a2 = header_after_arrays [OF l2 length_le32 [of "crc32 (gap 16384)"]]
  have R1: "length (header_bytes f1 512) = 92" using a1(1) by (simp add: h1)
  have R2: "length (header_bytes f1 (unat B * 512)) = 92" using a2(1) by (simp add: h2)
  have hb: "backup_lba ?H1 = B"
    by (simp add: primary_gpt_header_def B_def init_backup_lba_def)
  have p1: "take 8 (drop 72 ?S1) = le64 2"
    using gpt_sector_fields(3) [of ?H1] u16 by (simp add: primary_gpt_header_def)
  have p2: "take 8 (drop 72 ?S2) = le64 ((B * 512 - 16384 - 512) div 512)"
    using gpt_sector_fields(3) [of "backup_gpt_header ?H1"] u16 hb
    by (simp add: backup_gpt_header_def primary_gpt_header_def
        GPT_PARTITION_HEADER_COUNT_def GPT_PARTITION_HEADER_SIZE_def)
  have v1: "stored_array_lba f 512 = 2"
    using header_patched_fields(1) [OF R1] a1(3) p1
    by (simp add: stored_array_lba_def g1 h1 of_le64_le64)
  have v2: "stored_array_lba f (unat B * 512) = (B * 512 - 16384 - 512) div 512"
    using header_patched_fields(1) [OF R2] a2(3) p2
    by (simp add: stored_array_lba_def g2 h2 of_le64_le64)
  have v3: "stored_array_lba f (unat B * 512) * 512 + 512 = backup_array_location B"
    unfolding v2 backup_array_location_eq by (rule backup_array_lba_word [OF bb nb])
  have v4: "partition_array f (unat B * 512 - 16384) = replicate 16384 0"
    by (simp add: partition_array_region z gap_def)
  have v5: "stored_array_checksum f (unat B * 512) = crc32 (partition_array f (unat B * 512 - 16384))"
    using header_patched_fields(2) [OF R2] a2(4)
    by (simp add: stored_array_checksum_def g2 h2 of_le32_le32 v4 gap_def)
  show ?thesis
    unfolding B_def [symmetric] nb nl ff [symmetric]
    using v1 v2 v3 v4 v5 by (simp add: backup_array_location_eq)
qed

theorem backup_array_lba_field_witness:
  "\<exists>file. init_gpt_disk (replicate 512 0x90) (Some (replicate 16 0x11)) (1 * 1024 * 1024) = Inr file
      \<and> stored_array_lba file 512 = 2
      \<and> stored_array_lba file 1048064 = 2014
      \<and> partition_array file 1031680 = replicate 16384 0"
proof -
  have "disk_size_ok (1 * 1024 * 1024)"
    by (simp add: disk_size_ok_def minimum_size_def GPT_HEADER_SIZE_def
        GPT_PARTITION_HEADER_COUNT_def GPT_PARTITION_HEADER_SIZE_def)
  then obtain image where
    i: "init_gpt_disk (replicate 512 0x90) (Some (replicate 16 0x11)) (1 * 1024 * 1024) = Inr image"
    using init_gpt_disk_ok [of "1 * 1024 * 1024" "replicate 512 0x90" "replicate 16 0x11"]
    by auto
  have b: "init_backup_lba 1048576 = 2047"
    by (simp add: init_backup_lba_def pad_disk_size_def)
  have "stored_array_lba image 512 = 2 \<and> stored_array_lba image 1048064 = 2014
      \<and> partition_array image 1031680 = replicate 16384 0"
    using backup_array_lba_field [OF i] by (simp add: b backup_array_location_eq)
  with i show ?thesis by blast
qed

lemma minimum_size_eq: "minimum_size = 98488"
  by (simp add: minimum_size_def GPT_HEADER_SIZE_def GPT_PARTITION_HEADER_COUNT_def
      GPT_PARTITION_HEADER_SIZE_def)

text \<open>
  C5, as the claim states it. The minimum of the claim, with one usable sector, is
  \<open>92 + 128 * 128 + 512 + 128 * 128 + 92 = 33464\<close> bytes. \<open>init_gpt_disk\<close> rejects a disk
  of that size.
\<close>

theorem claimed_minimum_rejected:
  "(92 + 128 * 128 + 512 + 128 * 128 + 92 :: 64 word) = 33464
   \<and> init_gpt_disk (replicate 512 0x90) (Some (replicate 16 0x11)) 33464 = Inl EXIT_FAILURE"
  by (simp add: init_gpt_disk_def init_write_gpt_def disk_size_ok_def minimum_size_eq)

text \<open>
  C5, amended. The minimum that \<^verbatim>\<open>pure64_init\<close> computes has one sector for each of the
  128 partition entries: \<open>92 + 128 * 128 + 128 * 512 + 128 * 128 + 92 = 98488\<close> bytes. A
  disk size below it is rejected; the minimum itself passes the check, and with a boot
  sector of 512 bytes and a UUID of 16 bytes \<open>init_gpt_disk\<close> then succeeds.
\<close>

theorem minimum_disk_size:
  "minimum_size = 92 + 128 * 128 + 128 * 512 + 128 * 128 + 92
   \<and> (disk_size < minimum_size \<longrightarrow> init_gpt_disk mbr_data uuid disk_size = Inl EXIT_FAILURE)
   \<and> (length mbr_data = 512 \<and> length u = 16
        \<longrightarrow> (\<exists>file. init_gpt_disk mbr_data (Some u) minimum_size = Inr file))"
proof (intro conjI impI)
  show "minimum_size = 92 + 128 * 128 + 128 * 512 + 128 * 128 + 92"
    by (simp add: minimum_size_eq)
  show "init_gpt_disk mbr_data uuid disk_size = Inl EXIT_FAILURE" if "disk_size < minimum_size"
    using that by (simp add: init_gpt_disk_def init_write_gpt_def disk_size_ok_def)
  show "\<exists>file. init_gpt_disk mbr_data (Some u) minimum_size = Inr file"
    if "length mbr_data = 512 \<and> length u = 16"
    using that init_gpt_disk_ok [of minimum_size mbr_data u]
    by (simp add: disk_size_ok_def minimum_size_eq)
qed

theorem minimum_disk_size_witness:
  "minimum_size = 98488
   \<and> init_gpt_disk (replicate 512 0x90) (Some (replicate 16 0x11)) 98487 = Inl EXIT_FAILURE
   \<and> (\<exists>file. init_gpt_disk (replicate 512 0x90) (Some (replicate 16 0x11)) 98488 = Inr file)"
  using minimum_disk_size [of 98487 "replicate 512 0x90" "Some (replicate 16 0x11)" "replicate 16 0x11"]
  by (simp add: minimum_size_eq)

text \<open>
  The option loop of \<^verbatim>\<open>pure64_init\<close> never changes \<^verbatim>\<open>disk_size\<close>: \<^verbatim>\<open>--disk-size\<close> fails when
  \<^verbatim>\<open>sscanf\<close> converts its value, and stores nothing when it does not.
\<close>

lemma init_options_keeps_disk_size:
  "init_options sscanf_llu argv disk_uuid_str disk_size = Inr (disk_uuid_str', disk_size')
     \<Longrightarrow> disk_size' = disk_size"
  by (induction sscanf_llu argv disk_uuid_str disk_size rule: init_options.induct)
     (auto split: if_splits list.splits)

end
